theory Spec2Isabelle
  imports Complex_Main "HOL-Library.Word"
begin

section \<open>Joystick teleoperation of an omnidirectional base: \<open>teleop_twist_joy.cpp\<close>\<close>

text \<open>
  The node receives one \<open>sensor_msgs/Joy\<close> frame per callback and publishes one
  \<open>geometry_msgs/Twist\<close> per frame. The embedding follows the C++ source function by
  function. Conventions:
  \<^item> \<open>float\<close> and \<open>double\<close> values are real numbers (rounding is not modelled);
  \<^item> a C \<open>int\<close> is a 32-bit word read with \<open>sint\<close>; \<open>std::size_t\<close> is an unsigned 64-bit
    value, and the conversion of an \<open>int\<close> to it is written out (\<open>to_size_t\<close>);
  \<^item> \<open>std::vector::operator[]\<close> does no bounds check: a read at or past the size is
    undefined behaviour, which the model reports as the error \<open>OutOfBounds\<close>;
  \<^item> \<open>std::map::at\<close> throws on a missing key: the error \<open>KeyNotFound\<close>;
  \<^item> the member state of \<open>Impl\<close> is passed explicitly and returned updated, together
    with the trace of effects of the call (messages published, time spent sleeping).
    The \<open>ROS_INFO\<close> log lines are not part of the trace.
\<close>

subsection \<open>Data\<close>

type_synonym c_int = "32 word"

text \<open>\<open>geometry_msgs/Twist\<close>: two vectors of three \<open>float64\<close> each.\<close>

record Twist =
  linear_x :: real
  linear_y :: real
  linear_z :: real
  angular_x :: real
  angular_y :: real
  angular_z :: real

text \<open>
  \<open>sensor_msgs/Joy\<close>: the time stamp of the header (seconds), \<open>float32[] axes\<close> and
  \<open>int32[] buttons\<close>.
\<close>

record Joy =
  stamp :: real
  axes :: "real list"
  buttons :: "c_int list"

text \<open>The members of \<open>TeleopTwistJoy::Impl\<close> (the ROS handles apart).\<close>

record Impl =
  cmd_vel_msg :: Twist
  enable_mov :: c_int
  increment_vel :: c_int
  decrement_vel :: c_int
  mov_vel :: real
  orientation_vel :: real
  min_vel :: real
  max_vel :: real
  reaction_t :: real
  axis_position_map :: "string \<rightharpoonup> c_int"
  axis_orientation_map :: "string \<rightharpoonup> c_int"

datatype error = OutOfBounds | KeyNotFound

datatype event = Published Twist | Slept real

subsection \<open>Containers\<close>

text \<open>
  The implicit conversion of an \<open>int\<close> to \<open>std::size_t\<close>: the value modulo \<open>2 ^ 64\<close>, so
  a negative index becomes a very large one.
\<close>

definition to_size_t :: "c_int \<Rightarrow> nat" where
  "to_size_t i = nat (sint i mod 2 ^ 64)"

text \<open>
  The largest number of 4-byte elements (\<open>float\<close>, \<open>int32_t\<close>) a \<open>std::vector\<close> holds on a
  64-bit platform: \<open>PTRDIFF_MAX / 4\<close>.
\<close>

definition max_size :: nat where
  "max_size = 2 ^ 61 - 1"

text \<open>\<open>v[i]\<close> on a \<open>std::vector\<close>, with an \<open>int\<close> index converted to \<open>size_t\<close>.\<close>

definition vec_at :: "'a list \<Rightarrow> c_int \<Rightarrow> error + 'a" where
  "vec_at v i = (if to_size_t i < length v then Inr (v ! to_size_t i) else Inl OutOfBounds)"

text \<open>\<open>m.at(k)\<close> on a \<open>std::map\<close>.\<close>

definition map_at :: "('k \<rightharpoonup> 'v) \<Rightarrow> 'k \<Rightarrow> error + 'v" where
  "map_at m k = (case m k of None \<Rightarrow> Inl KeyNotFound | Some v \<Rightarrow> Inr v)"

text \<open>\<open>joy_msg->buttons[i]\<close> read as a condition: any non-zero value is true.\<close>

definition button :: "Joy \<Rightarrow> c_int \<Rightarrow> error + bool" where
  "button joy_msg i =
     (case vec_at (buttons joy_msg) i of Inl e \<Rightarrow> Inl e | Inr b \<Rightarrow> Inr (b \<noteq> 0))"

subsection \<open>\<open>getVal\<close>\<close>

text \<open>
  The guard is \<open>find(fieldname) == end() || axes.size() <= at(fieldname)\<close>; the second
  operand is evaluated only when the key is present, and compares in \<open>size_t\<close>.
\<close>

definition getVal :: "Joy \<Rightarrow> (string \<rightharpoonup> c_int) \<Rightarrow> string \<Rightarrow> error + real" where
  "getVal joy_msg axis_map fieldname =
     (if axis_map fieldname = None then Inr 0
      else case map_at axis_map fieldname of
             Inl e \<Rightarrow> Inl e
           | Inr i \<Rightarrow>
               if length (axes joy_msg) \<le> to_size_t i then Inr 0
               else (case map_at axis_map fieldname of
                       Inl e \<Rightarrow> Inl e
                     | Inr j \<Rightarrow> vec_at (axes joy_msg) j))"

subsection \<open>\<open>ModifyVelocity\<close>\<close>

text \<open>
  \<open>scale\<close> and \<open>max_v\<close> are the two reference parameters; the new value of \<open>scale\<close> is
  returned. The call ends with \<open>ros::Duration(reaction_t).sleep()\<close> on every path.
\<close>

definition ModifyVelocity :: "Impl \<Rightarrow> Joy \<Rightarrow> real \<Rightarrow> real \<Rightarrow> error + (real \<times> event list)" where
  "ModifyVelocity s joy_msg scale max_v =
     (case button joy_msg (increment_vel s) of
        Inl e \<Rightarrow> Inl e
      | Inr inc \<Rightarrow>
          if inc then Inr (min (scale * 1.2) max_v, [Slept (reaction_t s)])
          else (case button joy_msg (decrement_vel s) of
                  Inl e \<Rightarrow> Inl e
                | Inr dec \<Rightarrow>
                    if dec then Inr (max (scale / 1.2) (min_vel s), [Slept (reaction_t s)])
                    else Inr (scale, [Slept (reaction_t s)])))"

subsection \<open>\<open>joyCallback\<close>\<close>

text \<open>The condition \<open>buttons[increment_vel] || buttons[decrement_vel]\<close>, left to right.\<close>

definition scaling_requested :: "Impl \<Rightarrow> Joy \<Rightarrow> error + bool" where
  "scaling_requested s joy_msg =
     (case button joy_msg (increment_vel s) of
        Inl e \<Rightarrow> Inl e
      | Inr inc \<Rightarrow> if inc then Inr True else button joy_msg (decrement_vel s))"

text \<open>The three assignments of the motion branch.\<close>

definition command_motion :: "Impl \<Rightarrow> Joy \<Rightarrow> error + Impl" where
  "command_motion s joy_msg =
     (case getVal joy_msg (axis_position_map s) ''x'' of
        Inl e \<Rightarrow> Inl e
      | Inr vx \<Rightarrow>
     (case getVal joy_msg (axis_position_map s) ''y'' of
        Inl e \<Rightarrow> Inl e
      | Inr vy \<Rightarrow>
     (case getVal joy_msg (axis_orientation_map s) ''z'' of
        Inl e \<Rightarrow> Inl e
      | Inr vz \<Rightarrow>
          Inr (s\<lparr>cmd_vel_msg := (cmd_vel_msg s)
                 \<lparr>linear_x := mov_vel s * vx,
                  linear_y := mov_vel s * vy,
                  angular_z := mov_vel s * vz\<rparr>\<rparr>))))"

text \<open>The three assignments of the branch taken when the enable button is not pressed.\<close>

definition command_stop :: "Impl \<Rightarrow> Impl" where
  "command_stop s =
     s\<lparr>cmd_vel_msg := (cmd_vel_msg s)\<lparr>linear_x := 0, linear_y := 0, angular_z := 0\<rparr>\<rparr>"

text \<open>\<open>cmd_vel_pub.publish(cmd_vel_msg)\<close>, the last effect of every callback.\<close>

definition publish :: "Impl \<Rightarrow> event list \<Rightarrow> Impl \<times> event list" where
  "publish s evs = (s, evs @ [Published (cmd_vel_msg s)])"

definition joyCallback :: "Joy \<Rightarrow> Impl \<Rightarrow> error + (Impl \<times> event list)" where
  "joyCallback joy_msg s =
     (case button joy_msg (enable_mov s) of
        Inl e \<Rightarrow> Inl e
      | Inr en \<Rightarrow>
          if en then
            (case scaling_requested s joy_msg of
               Inl e \<Rightarrow> Inl e
             | Inr True \<Rightarrow>
                 (case ModifyVelocity s joy_msg (mov_vel s) (max_vel s) of
                    Inl e \<Rightarrow> Inl e
                  | Inr (scale, evs) \<Rightarrow> Inr (publish (s\<lparr>mov_vel := scale\<rparr>) evs))
             | Inr False \<Rightarrow>
                 (case command_motion s joy_msg of
                    Inl e \<Rightarrow> Inl e
                  | Inr s' \<Rightarrow> Inr (publish s' [])))
          else Inr (publish (command_stop s) []))"

text \<open>The callbacks of a sequence of frames, one after the other; an error stops the run.\<close>

fun run :: "Impl \<Rightarrow> Joy list \<Rightarrow> error + (Impl \<times> event list)" where
  "run s [] = Inr (s, [])"
| "run s (joy_msg # rest) =
     (case joyCallback joy_msg s of
        Inl e \<Rightarrow> Inl e
      | Inr (s', evs) \<Rightarrow>
          (case run s' rest of
             Inl e \<Rightarrow> Inl e
           | Inr (s'', evs') \<Rightarrow> Inr (s'', evs @ evs')))"

text \<open>The messages published in a trace, in order.\<close>

fun published :: "event list \<Rightarrow> Twist list" where
  "published [] = []"
| "published (Published t # evs) = t # published evs"
| "published (Slept d # evs) = published evs"

text \<open>The total time a trace spends sleeping.\<close>

fun blocked :: "event list \<Rightarrow> real" where
  "blocked [] = 0"
| "blocked (Published t # evs) = blocked evs"
| "blocked (Slept d # evs) = d + blocked evs"

subsection \<open>The constructor\<close>

text \<open>
  The parameters the constructor looks up; \<open>None\<close> is a parameter that is not set.
\<close>

record Params =
  param_enable_mov :: "c_int option"
  param_increment_velocity :: "c_int option"
  param_decrement_velocity :: "c_int option"
  param_axis_position_map :: "(string \<rightharpoonup> c_int) option"
  param_axis_orientation_map :: "(string \<rightharpoonup> c_int) option"
  param_max_displacement_in_a_second :: "real option"

text \<open>A default-constructed \<open>geometry_msgs::Twist\<close>: every component is zero.\<close>

definition zero_Twist :: Twist where
  "zero_Twist =
     \<lparr>linear_x = 0, linear_y = 0, linear_z = 0, angular_x = 0, angular_y = 0, angular_z = 0\<rparr>"

text \<open>
  What \<open>TeleopTwistJoy::TeleopTwistJoy\<close> and the member initialisers of \<open>Impl\<close> establish.
  \<open>param\<close> has a default (\<open>0\<close> for the enable button, \<open>-1\<close> for the two scale buttons);
  \<open>getParam\<close> leaves its target untouched when the parameter is not set, so the maps
  stay empty and \<open>max_vel\<close> keeps an indeterminate value. \<open>orientation_vel\<close> is never
  initialised. The state is therefore described by a predicate, not computed.
\<close>

definition constructed :: "Params \<Rightarrow> Impl \<Rightarrow> bool" where
  "constructed p s \<longleftrightarrow>
     cmd_vel_msg s = zero_Twist \<and>
     enable_mov s = (case param_enable_mov p of None \<Rightarrow> 0 | Some v \<Rightarrow> v) \<and>
     increment_vel s = (case param_increment_velocity p of None \<Rightarrow> - 1 | Some v \<Rightarrow> v) \<and>
     decrement_vel s = (case param_decrement_velocity p of None \<Rightarrow> - 1 | Some v \<Rightarrow> v) \<and>
     axis_position_map s = (case param_axis_position_map p of None \<Rightarrow> Map.empty | Some m \<Rightarrow> m) \<and>
     axis_orientation_map s =
       (case param_axis_orientation_map p of None \<Rightarrow> Map.empty | Some m \<Rightarrow> m) \<and>
     (case param_max_displacement_in_a_second p of None \<Rightarrow> True | Some v \<Rightarrow> max_vel s = v) \<and>
     mov_vel s = 0.5 \<and> min_vel s = 0.1 \<and> reaction_t s = 0.5"

subsection \<open>Example configurations and frames\<close>

text \<open>The node started with \<open>max_displacement_in_a_second = 1\<close> and nothing else set.\<close>

definition default_impl :: Impl where
  "default_impl =
     \<lparr>cmd_vel_msg = zero_Twist, enable_mov = 0, increment_vel = - 1, decrement_vel = - 1,
      mov_vel = 0.5, orientation_vel = 0, min_vel = 0.1, max_vel = 1, reaction_t = 0.5,
      axis_position_map = Map.empty, axis_orientation_map = Map.empty\<rparr>"

text \<open>
  A gamepad: button 0 enables, button 1 speeds up, button 2 slows down; axes 0 and 1
  translate, axis 2 rotates; the scale may grow up to 2.
\<close>

definition gamepad_impl :: Impl where
  "gamepad_impl =
     \<lparr>cmd_vel_msg = zero_Twist, enable_mov = 0, increment_vel = 1, decrement_vel = 2,
      mov_vel = 0.5, orientation_vel = 0, min_vel = 0.1, max_vel = 2, reaction_t = 0.5,
      axis_position_map = [''x'' \<mapsto> 0, ''y'' \<mapsto> 1], axis_orientation_map = [''z'' \<mapsto> 2]\<rparr>"

definition frame :: "real \<Rightarrow> real list \<Rightarrow> c_int list \<Rightarrow> Joy" where
  "frame t a b = \<lparr>stamp = t, axes = a, buttons = b\<rparr>"

subsection \<open>Predicates used in the statements\<close>

text \<open>
  What no callback changes: the button indices, the bounds, the cooldown, the axis maps,
  and the three components of the stored command that are never assigned.
\<close>

definition same_configuration :: "Impl \<Rightarrow> Impl \<Rightarrow> bool" where
  "same_configuration s s' \<longleftrightarrow>
     enable_mov s' = enable_mov s \<and> increment_vel s' = increment_vel s \<and>
     decrement_vel s' = decrement_vel s \<and> min_vel s' = min_vel s \<and> max_vel s' = max_vel s \<and>
     reaction_t s' = reaction_t s \<and> axis_position_map s' = axis_position_map s \<and>
     axis_orientation_map s' = axis_orientation_map s \<and>
     linear_z (cmd_vel_msg s') = linear_z (cmd_vel_msg s) \<and>
     angular_x (cmd_vel_msg s') = angular_x (cmd_vel_msg s) \<and>
     angular_y (cmd_vel_msg s') = angular_y (cmd_vel_msg s)"

text \<open>The scale lies between its two bounds.\<close>

definition scale_in_bounds :: "Impl \<Rightarrow> bool" where
  "scale_in_bounds s \<longleftrightarrow> min_vel s \<le> mov_vel s \<and> mov_vel s \<le> max_vel s"

text \<open>The three configured button indices are indices of the frame's \<open>buttons\<close>.\<close>

definition buttons_in_range :: "Impl \<Rightarrow> Joy \<Rightarrow> bool" where
  "buttons_in_range s joy_msg \<longleftrightarrow>
     to_size_t (enable_mov s) < length (buttons joy_msg) \<and>
     to_size_t (increment_vel s) < length (buttons joy_msg) \<and>
     to_size_t (decrement_vel s) < length (buttons joy_msg)"

text \<open>
  A frame that asks for a decrement: enable pressed, increment not pressed, decrement
  pressed.
\<close>

definition decrement_frame :: "Impl \<Rightarrow> Joy \<Rightarrow> bool" where
  "decrement_frame s joy_msg \<longleftrightarrow>
     button joy_msg (enable_mov s) = Inr True \<and>
     button joy_msg (increment_vel s) = Inr False \<and>
     button joy_msg (decrement_vel s) = Inr True"

text \<open>The scale after the callbacks of a sequence of frames, if they all return.\<close>

definition scale_after :: "Impl \<Rightarrow> Joy list \<Rightarrow> real option" where
  "scale_after s frames =
     (case run s frames of Inl e \<Rightarrow> None | Inr (s', evs) \<Rightarrow> Some (mov_vel s'))"

section \<open>Basic facts\<close>

lemma published_append: "published (xs @ ys) = published xs @ published ys"
  by (induction xs rule: published.induct) simp_all

lemma default_impl_constructed:
  "constructed \<lparr>param_enable_mov = None, param_increment_velocity = None,
      param_decrement_velocity = None, param_axis_position_map = None,
      param_axis_orientation_map = None, param_max_displacement_in_a_second = Some 1\<rparr> default_impl"
  by (simp add: constructed_def default_impl_def)

lemma gamepad_impl_constructed:
  "constructed \<lparr>param_enable_mov = None, param_increment_velocity = Some 1,
      param_decrement_velocity = Some 2, param_axis_position_map = Some [''x'' \<mapsto> 0, ''y'' \<mapsto> 1],
      param_axis_orientation_map = Some [''z'' \<mapsto> 2], param_max_displacement_in_a_second = Some 2\<rparr>
     gamepad_impl"
  by (simp add: constructed_def gamepad_impl_def)

lemma sint_c_int_bounds: "- (2 ^ 31) \<le> sint (i :: c_int) \<and> sint i < 2 ^ 31"
  using sint_ge [of i] sint_lt [of i] by simp

lemma to_size_t_nonneg: "0 \<le> sint i \<Longrightarrow> to_size_t i = nat (sint i)"
  using sint_c_int_bounds [of i] by (simp add: to_size_t_def)

lemma to_size_t_neg: "sint i < 0 \<Longrightarrow> to_size_t i = nat (sint i + 2 ^ 64)"
proof -
  assume neg: "sint i < 0"
  have b: "- (2 ^ 31) \<le> sint i" using sint_c_int_bounds [of i] by simp
  have "sint i mod 2 ^ 64 = (sint i + 2 ^ 64) mod 2 ^ 64" by simp
  also have "\<dots> = sint i + 2 ^ 64" using neg b by (intro mod_pos_pos_trivial) simp_all
  finally show ?thesis by (simp add: to_size_t_def)
qed

lemma to_size_t_neg_large: "sint i < 0 \<Longrightarrow> 2 ^ 64 - 2 ^ 31 \<le> to_size_t i"
  using sint_c_int_bounds [of i] by (simp add: to_size_t_neg)

lemma button_axes_update [simp]: "button (joy_msg\<lparr>axes := a\<rparr>) i = button joy_msg i"
  by (simp add: button_def)

lemma button_frame:
  "button (frame t a b) i =
     (if to_size_t i < length b then Inr (b ! to_size_t i \<noteq> 0) else Inl OutOfBounds)"
  by (simp add: button_def vec_at_def frame_def)

lemma joyCallback_gate_closed:
  "button joy_msg (enable_mov s) = Inr False \<Longrightarrow>
   joyCallback joy_msg s = Inr (command_stop s, [Published (cmd_vel_msg (command_stop s))])"
  by (simp add: joyCallback_def publish_def)

section \<open>The deadman gate\<close>

text \<open>
  Claim C1. When the enable button of a frame reads as not pressed, the callback
  publishes exactly one command, whose \<open>linear.x\<close>, \<open>linear.y\<close> and \<open>angular.z\<close> are
  zero, whatever the axes of the frame hold (\<open>a\<close> is any axes array).
\<close>

theorem gate_closed_zero_command:
  assumes "button joy_msg (enable_mov s) = Inr False"
  shows "joyCallback (joy_msg\<lparr>axes := a\<rparr>) s =
           Inr (command_stop s, [Published (cmd_vel_msg (command_stop s))]) \<and>
         linear_x (cmd_vel_msg (command_stop s)) = 0 \<and>
         linear_y (cmd_vel_msg (command_stop s)) = 0 \<and>
         angular_z (cmd_vel_msg (command_stop s)) = 0"
proof -
  have "button (joy_msg\<lparr>axes := a\<rparr>) (enable_mov s) = Inr False"
    using assms by simp
  then have "joyCallback (joy_msg\<lparr>axes := a\<rparr>) s =
      Inr (command_stop s, [Published (cmd_vel_msg (command_stop s))])"
    by (rule joyCallback_gate_closed)
  then show ?thesis by (simp add: command_stop_def)
qed

theorem gate_closed_zero_command_witness:
  "button (frame 0 [] [0, 0, 0]) (enable_mov gamepad_impl) = Inr False \<and>
   joyCallback (frame 0 [1, - 1, 1] [0, 0, 0]) gamepad_impl =
     Inr (gamepad_impl, [Published zero_Twist])"
proof -
  have h: "button (frame 0 [] [0, 0, 0]) (enable_mov gamepad_impl) = Inr False"
    by (simp add: button_frame gamepad_impl_def to_size_t_def)
  have c: "command_stop gamepad_impl = gamepad_impl"
    by (simp add: command_stop_def gamepad_impl_def zero_Twist_def)
  have f: "(frame 0 [] [0, 0, 0])\<lparr>axes := [1, - 1, 1]\<rparr> = frame 0 [1, - 1, 1] [0, 0, 0]"
    by (simp add: frame_def)
  have g: "cmd_vel_msg gamepad_impl = zero_Twist" by (simp add: gamepad_impl_def)
  show ?thesis
    using h gate_closed_zero_command [OF h, of "[1, - 1, 1]"] by (simp add: c f g)
qed

text \<open>
  Claim C2. The claim asks that an unassigned (\<open>-1\<close>) or out-of-range button index reads
  as "not pressed" without any out-of-bounds access. The callback indexes \<open>buttons\<close>
  with no bounds check. With the default configuration (scale buttons unassigned) a
  frame whose enable button is pressed makes it read \<open>buttons[-1]\<close>; a frame with no
  button at all makes it read \<open>buttons[0]\<close>; \<open>ModifyVelocity\<close> reads \<open>buttons[-1]\<close> too.
  Each is an out-of-bounds read.
\<close>

theorem unassigned_button_index_read_out_of_bounds:
  "increment_vel default_impl = - 1 \<and>
   joyCallback (frame 0 [0, 0, 0] [1]) default_impl = Inl OutOfBounds \<and>
   joyCallback (frame 0 [0, 0, 0] []) default_impl = Inl OutOfBounds \<and>
   ModifyVelocity default_impl (frame 0 [0, 0, 0] [1]) 0.5 1 = Inl OutOfBounds"
  by (simp add: joyCallback_def scaling_requested_def ModifyVelocity_def button_frame
      default_impl_def to_size_t_def)

section \<open>Axis lookup\<close>

lemma getVal_absent: "axis_map fieldname = None \<Longrightarrow> getVal joy_msg axis_map fieldname = Inr 0"
  by (simp add: getVal_def)

lemma getVal_present:
  "axis_map fieldname = Some i \<Longrightarrow>
   getVal joy_msg axis_map fieldname =
     Inr (if length (axes joy_msg) \<le> to_size_t i then 0 else axes joy_msg ! to_size_t i)"
  by (simp add: getVal_def map_at_def vec_at_def)

lemma getVal_total: "\<exists>v. getVal joy_msg axis_map fieldname = Inr v"
proof (cases "axis_map fieldname")
  case None
  then show ?thesis by (simp add: getVal_absent)
next
  case (Some i)
  then show ?thesis by (simp add: getVal_present)
qed

text \<open>
  Claim C4. \<open>getVal\<close> returns \<open>0\<close> when the axis name is not in the mapping, and when the
  mapped index (a non-negative \<open>int\<close>, as the data model has it) is at least the length
  of the axes array; for an index below the length it returns that element of the array
  unchanged. It returns a value on every input (no exception of \<open>at\<close>, no out-of-bounds
  read), and being a function of the frame, the mapping and the name alone it has no
  effect on any state.
\<close>

theorem getVal_fail_safe:
  "(axis_map fieldname = None \<longrightarrow> getVal joy_msg axis_map fieldname = Inr 0) \<and>
   (axis_map fieldname = Some i \<and> 0 \<le> sint i \<and> int (length (axes joy_msg)) \<le> sint i \<longrightarrow>
      getVal joy_msg axis_map fieldname = Inr 0) \<and>
   (axis_map fieldname = Some i \<and> 0 \<le> sint i \<and> sint i < int (length (axes joy_msg)) \<longrightarrow>
      getVal joy_msg axis_map fieldname = Inr (axes joy_msg ! nat (sint i))) \<and>
   (\<exists>v. getVal joy_msg axis_map fieldname = Inr v)"
proof (intro conjI impI)
  assume "axis_map fieldname = None"
  then show "getVal joy_msg axis_map fieldname = Inr 0" by (rule getVal_absent)
next
  assume a: "axis_map fieldname = Some i \<and> 0 \<le> sint i \<and> int (length (axes joy_msg)) \<le> sint i"
  then have "length (axes joy_msg) \<le> nat (sint i)" by linarith
  with a have "length (axes joy_msg) \<le> to_size_t i" by (simp add: to_size_t_nonneg)
  with a show "getVal joy_msg axis_map fieldname = Inr 0" by (simp add: getVal_present)
next
  assume a: "axis_map fieldname = Some i \<and> 0 \<le> sint i \<and> sint i < int (length (axes joy_msg))"
  then have "\<not> length (axes joy_msg) \<le> nat (sint i)" by linarith
  with a have "\<not> length (axes joy_msg) \<le> to_size_t i" by (simp add: to_size_t_nonneg)
  with a show "getVal joy_msg axis_map fieldname = Inr (axes joy_msg ! nat (sint i))"
    by (simp add: getVal_present to_size_t_nonneg)
next
  show "\<exists>v. getVal joy_msg axis_map fieldname = Inr v" by (rule getVal_total)
qed

theorem getVal_fail_safe_witness:
  "[''x'' \<mapsto> 0, ''y'' \<mapsto> (1 :: c_int)] ''z'' = None \<and>
   getVal (frame 0 [0.5, - 0.5, 1] []) [''x'' \<mapsto> 0, ''y'' \<mapsto> 1] ''z'' = Inr 0 \<and>
   [''x'' \<mapsto> 0, ''y'' \<mapsto> (3 :: c_int)] ''y'' = Some 3 \<and> 0 \<le> sint (3 :: c_int) \<and>
   int (length (axes (frame 0 [0.5, - 0.5, 1] []))) \<le> sint (3 :: c_int) \<and>
   getVal (frame 0 [0.5, - 0.5, 1] []) [''x'' \<mapsto> 0, ''y'' \<mapsto> 3] ''y'' = Inr 0 \<and>
   [''x'' \<mapsto> 0, ''y'' \<mapsto> (1 :: c_int)] ''y'' = Some 1 \<and>
   sint (1 :: c_int) < int (length (axes (frame 0 [0.5, - 0.5, 1] []))) \<and>
   getVal (frame 0 [0.5, - 0.5, 1] []) [''x'' \<mapsto> 0, ''y'' \<mapsto> 1] ''y'' = Inr (- 0.5)"
  using getVal_fail_safe [of "[''x'' \<mapsto> 0, ''y'' \<mapsto> 1]" "''z''" "frame 0 [0.5, - 0.5, 1] []" 0]
    getVal_fail_safe [of "[''x'' \<mapsto> 0, ''y'' \<mapsto> 3]" "''y''" "frame 0 [0.5, - 0.5, 1] []" 3]
    getVal_fail_safe [of "[''x'' \<mapsto> 0, ''y'' \<mapsto> 1]" "''y''" "frame 0 [0.5, - 0.5, 1] []" 1]
  by (simp add: frame_def)

text \<open>
  Claim C10. A name mapped to a negative index gives \<open>0\<close>: converted to \<open>size_t\<close> for the
  comparison with \<open>axes.size()\<close> the index is at least \<open>2 ^ 64 - 2 ^ 31\<close>, more than any
  vector holds, so the guard is true, the fail-safe branch is taken and the array is not
  read.
\<close>

theorem getVal_negative_index:
  assumes "axis_map fieldname = Some i" and "sint i < 0"
    and "length (axes joy_msg) \<le> max_size"
  shows "getVal joy_msg axis_map fieldname = Inr 0 \<and>
         length (axes joy_msg) \<le> to_size_t i \<and> 2 ^ 64 - 2 ^ 31 \<le> to_size_t i"
proof -
  have large: "2 ^ 64 - 2 ^ 31 \<le> to_size_t i"
    using assms(2) by (rule to_size_t_neg_large)
  have "max_size \<le> 2 ^ 64 - 2 ^ 31" by (simp add: max_size_def)
  with assms(3) large have guard: "length (axes joy_msg) \<le> to_size_t i" by linarith
  with assms(1) have "getVal joy_msg axis_map fieldname = Inr 0"
    by (simp add: getVal_present)
  with guard large show ?thesis by simp
qed

theorem getVal_negative_index_witness:
  "[''x'' \<mapsto> (- 1 :: c_int)] ''x'' = Some (- 1) \<and> sint (- 1 :: c_int) < 0 \<and>
   length (axes (frame 0 [0.5, - 0.5, 1] [])) \<le> max_size \<and>
   getVal (frame 0 [0.5, - 0.5, 1] []) [''x'' \<mapsto> - 1] ''x'' = Inr 0 \<and>
   to_size_t (- 1) = 18446744073709551615"
proof -
  have h1: "[''x'' \<mapsto> (- 1 :: c_int)] ''x'' = Some (- 1)" by simp
  have h2: "sint (- 1 :: c_int) < 0" by simp
  have h3: "length (axes (frame 0 [0.5, - 0.5, 1] [])) \<le> max_size"
    by (simp add: frame_def max_size_def)
  have "to_size_t (- 1) = 18446744073709551615" by (simp add: to_size_t_def)
  with h1 h2 h3
    getVal_negative_index [of "[''x'' \<mapsto> - 1]" "''x''" "- 1" "frame 0 [0.5, - 0.5, 1] []"]
  show ?thesis by simp
qed

section \<open>The callback, branch by branch\<close>

lemma ModifyVelocity_increment:
  "button joy_msg (increment_vel s) = Inr True \<Longrightarrow>
   ModifyVelocity s joy_msg scale max_v = Inr (min (scale * 1.2) max_v, [Slept (reaction_t s)])"
  by (simp add: ModifyVelocity_def)

lemma ModifyVelocity_decrement:
  "button joy_msg (increment_vel s) = Inr False \<Longrightarrow>
   button joy_msg (decrement_vel s) = Inr True \<Longrightarrow>
   ModifyVelocity s joy_msg scale max_v =
     Inr (max (scale / 1.2) (min_vel s), [Slept (reaction_t s)])"
  by (simp add: ModifyVelocity_def)

lemma scaling_requested_cases:
  "scaling_requested s joy_msg = Inr True \<longleftrightarrow>
     button joy_msg (increment_vel s) = Inr True \<or>
     button joy_msg (increment_vel s) = Inr False \<and> button joy_msg (decrement_vel s) = Inr True"
  by (auto simp: scaling_requested_def split: sum.splits if_splits)

lemma joyCallback_increment:
  assumes "button joy_msg (enable_mov s) = Inr True"
    and "button joy_msg (increment_vel s) = Inr True"
  shows "joyCallback joy_msg s =
           Inr (s\<lparr>mov_vel := min (mov_vel s * 1.2) (max_vel s)\<rparr>,
                [Slept (reaction_t s), Published (cmd_vel_msg s)])"
  using assms by (simp add: joyCallback_def scaling_requested_def ModifyVelocity_def publish_def)

lemma joyCallback_decrement:
  assumes "button joy_msg (enable_mov s) = Inr True"
    and "button joy_msg (increment_vel s) = Inr False"
    and "button joy_msg (decrement_vel s) = Inr True"
  shows "joyCallback joy_msg s =
           Inr (s\<lparr>mov_vel := max (mov_vel s / 1.2) (min_vel s)\<rparr>,
                [Slept (reaction_t s), Published (cmd_vel_msg s)])"
  using assms by (simp add: joyCallback_def scaling_requested_def ModifyVelocity_def publish_def)

lemma joyCallback_scaling:
  assumes "button joy_msg (enable_mov s) = Inr True"
    and "scaling_requested s joy_msg = Inr True"
  shows "\<exists>scale. joyCallback joy_msg s =
           Inr (s\<lparr>mov_vel := scale\<rparr>, [Slept (reaction_t s), Published (cmd_vel_msg s)])"
  using assms(2) joyCallback_increment [OF assms(1)] joyCallback_decrement [OF assms(1)]
  unfolding scaling_requested_cases by blast

lemma joyCallback_motion:
  assumes "button joy_msg (enable_mov s) = Inr True"
    and "button joy_msg (increment_vel s) = Inr False"
    and "button joy_msg (decrement_vel s) = Inr False"
    and "getVal joy_msg (axis_position_map s) ''x'' = Inr vx"
    and "getVal joy_msg (axis_position_map s) ''y'' = Inr vy"
    and "getVal joy_msg (axis_orientation_map s) ''z'' = Inr vz"
  shows "joyCallback joy_msg s =
           Inr (s\<lparr>cmd_vel_msg := (cmd_vel_msg s)
                   \<lparr>linear_x := mov_vel s * vx, linear_y := mov_vel s * vy,
                    angular_z := mov_vel s * vz\<rparr>\<rparr>,
                [Published ((cmd_vel_msg s)
                   \<lparr>linear_x := mov_vel s * vx, linear_y := mov_vel s * vy,
                    angular_z := mov_vel s * vz\<rparr>)])"
  using assms
  by (simp add: joyCallback_def scaling_requested_def command_motion_def publish_def)

lemma command_motion_cases:
  assumes "command_motion s joy_msg = Inr s'"
  obtains vx vy vz where
    "s' = s\<lparr>cmd_vel_msg := (cmd_vel_msg s)
             \<lparr>linear_x := mov_vel s * vx, linear_y := mov_vel s * vy,
              angular_z := mov_vel s * vz\<rparr>\<rparr>"
  using assms by (auto simp: command_motion_def split: sum.splits)

lemma joyCallback_cases:
  assumes "joyCallback joy_msg s = Inr (s', evs)"
  obtains
    (stop) "s' = command_stop s" "evs = [Published (cmd_vel_msg s')]"
  | (scaling) scale where "ModifyVelocity s joy_msg (mov_vel s) (max_vel s) =
        Inr (scale, [Slept (reaction_t s)])"
      "s' = s\<lparr>mov_vel := scale\<rparr>" "evs = [Slept (reaction_t s), Published (cmd_vel_msg s)]"
  | (motion) "command_motion s joy_msg = Inr s'" "evs = [Published (cmd_vel_msg s')]"
proof -
  have mv: "\<And>c e. ModifyVelocity s joy_msg (mov_vel s) (max_vel s) = Inr (c, e) \<Longrightarrow>
      e = [Slept (reaction_t s)]"
    by (auto simp: ModifyVelocity_def split: sum.splits if_splits)
  show ?thesis
    using assms mv stop scaling motion
    by (auto simp: joyCallback_def publish_def split: sum.splits if_splits bool.splits prod.splits)
qed

lemma joyCallback_same_configuration:
  assumes "joyCallback joy_msg s = Inr (s', evs)"
  shows "same_configuration s s'"
  using assms
proof (cases rule: joyCallback_cases)
  case stop
  then show ?thesis by (simp add: same_configuration_def command_stop_def)
next
  case (scaling scale)
  then show ?thesis by (simp add: same_configuration_def)
next
  case motion
  from motion(1) show ?thesis
    by (rule command_motion_cases) (simp add: same_configuration_def)
qed

lemma joyCallback_published:
  assumes "joyCallback joy_msg s = Inr (s', evs)"
  shows "published evs = [cmd_vel_msg s']"
  using assms by (cases rule: joyCallback_cases) simp_all

section \<open>Runs of callbacks\<close>

lemma same_configuration_refl: "same_configuration s s"
  by (simp add: same_configuration_def)

lemma same_configuration_trans:
  "same_configuration s s' \<Longrightarrow> same_configuration s' s'' \<Longrightarrow> same_configuration s s''"
  by (simp add: same_configuration_def)

lemma run_Cons_cases:
  assumes "run s (joy_msg # rest) = Inr (s'', evs'')"
  obtains s' evs evs' where "joyCallback joy_msg s = Inr (s', evs)"
    "run s' rest = Inr (s'', evs')" "evs'' = evs @ evs'"
  using assms by (auto split: sum.splits prod.splits)

lemma run_same_configuration:
  "run s frames = Inr (s', evs) \<Longrightarrow> same_configuration s s'"
proof (induction frames arbitrary: s s' evs)
  case Nil
  then show ?case by (simp add: same_configuration_refl)
next
  case (Cons joy_msg rest)
  from Cons.prems obtain s1 evs1 evs2 where
    step: "joyCallback joy_msg s = Inr (s1, evs1)" and tail: "run s1 rest = Inr (s', evs2)"
    by (rule run_Cons_cases)
  from step have "same_configuration s s1" by (rule joyCallback_same_configuration)
  moreover from tail have "same_configuration s1 s'" by (rule Cons.IH)
  ultimately show ?case by (rule same_configuration_trans)
qed

lemma run_published_angular:
  "run s frames = Inr (s', evs) \<Longrightarrow> t \<in> set (published evs) \<Longrightarrow>
   angular_x t = angular_x (cmd_vel_msg s) \<and> angular_y t = angular_y (cmd_vel_msg s)"
proof (induction frames arbitrary: s s' evs)
  case Nil
  then show ?case by simp
next
  case (Cons joy_msg rest)
  from Cons.prems(1) obtain s1 evs1 evs2 where
    step: "joyCallback joy_msg s = Inr (s1, evs1)" and tail: "run s1 rest = Inr (s', evs2)"
    and evs: "evs = evs1 @ evs2"
    by (rule run_Cons_cases)
  from step have conf: "same_configuration s s1" by (rule joyCallback_same_configuration)
  from step have pub: "published evs1 = [cmd_vel_msg s1]" by (rule joyCallback_published)
  from Cons.prems(2) evs pub have "t = cmd_vel_msg s1 \<or> t \<in> set (published evs2)"
    by (simp add: published_append)
  then show ?case
  proof
    assume "t = cmd_vel_msg s1"
    with conf show ?thesis by (simp add: same_configuration_def)
  next
    assume "t \<in> set (published evs2)"
    with tail have "angular_x t = angular_x (cmd_vel_msg s1) \<and> angular_y t = angular_y (cmd_vel_msg s1)"
      by (rule Cons.IH)
    with conf show ?thesis by (simp add: same_configuration_def)
  qed
qed

section \<open>Motion frames\<close>

text \<open>
  Scenario A: mapping \<open>{x:0, y:1}\<close>, \<open>{z:2}\<close>, axes \<open>[0.5, -0.5, 1.0]\<close>, enable button pressed,
  no scale button pressed, scale \<open>0.5\<close>.
\<close>

lemma scenario_A:
  "joyCallback (frame 0 [0.5, - 0.5, 1] [1, 0, 0]) gamepad_impl =
     Inr (gamepad_impl\<lparr>cmd_vel_msg :=
            zero_Twist\<lparr>linear_x := 0.25, linear_y := - 0.25, angular_z := 0.5\<rparr>\<rparr>,
          [Published (zero_Twist\<lparr>linear_x := 0.25, linear_y := - 0.25, angular_z := 0.5\<rparr>)])"
proof -
  have b: "button (frame 0 [0.5, - 0.5, 1] [1, 0, 0]) (enable_mov gamepad_impl) = Inr True"
    "button (frame 0 [0.5, - 0.5, 1] [1, 0, 0]) (increment_vel gamepad_impl) = Inr False"
    "button (frame 0 [0.5, - 0.5, 1] [1, 0, 0]) (decrement_vel gamepad_impl) = Inr False"
    by (simp_all add: button_frame gamepad_impl_def to_size_t_def)
  have g: "getVal (frame 0 [0.5, - 0.5, 1] [1, 0, 0]) (axis_position_map gamepad_impl) ''x'' = Inr 0.5"
    "getVal (frame 0 [0.5, - 0.5, 1] [1, 0, 0]) (axis_position_map gamepad_impl) ''y'' = Inr (- 0.5)"
    "getVal (frame 0 [0.5, - 0.5, 1] [1, 0, 0]) (axis_orientation_map gamepad_impl) ''z'' = Inr 1"
    by (simp_all add: getVal_present gamepad_impl_def frame_def to_size_t_def)
  show ?thesis
    unfolding joyCallback_motion [OF b g] by (simp add: gamepad_impl_def)
qed

text \<open>
  Claim C7. When the enable button is pressed and neither scale button is, the published
  command has \<open>linear.x = mov_vel * getVal(x)\<close>, \<open>linear.y = mov_vel * getVal(y)\<close> and
  \<open>angular.z = mov_vel * getVal(z)\<close>, the first two looked up in the position map and
  the third in the orientation map; \<open>angular.x\<close> and \<open>angular.y\<close> are not written, and
  are zero in every command published by a node run from its constructed state. In
  Scenario A the command is \<open>(0.25, -0.25, 0.5)\<close>.
\<close>

theorem motion_command:
  "(button joy_msg (enable_mov s) = Inr True \<and>
    button joy_msg (increment_vel s) = Inr False \<and>
    button joy_msg (decrement_vel s) = Inr False \<longrightarrow>
      (\<exists>vx vy vz t.
         getVal joy_msg (axis_position_map s) ''x'' = Inr vx \<and>
         getVal joy_msg (axis_position_map s) ''y'' = Inr vy \<and>
         getVal joy_msg (axis_orientation_map s) ''z'' = Inr vz \<and>
         joyCallback joy_msg s = Inr (s\<lparr>cmd_vel_msg := t\<rparr>, [Published t]) \<and>
         linear_x t = mov_vel s * vx \<and> linear_y t = mov_vel s * vy \<and>
         angular_z t = mov_vel s * vz \<and>
         angular_x t = angular_x (cmd_vel_msg s) \<and> angular_y t = angular_y (cmd_vel_msg s))) \<and>
   (constructed p s0 \<and> run s0 frames = Inr (s1, evs) \<longrightarrow>
      (\<forall>t \<in> set (published evs). angular_x t = 0 \<and> angular_y t = 0)) \<and>
   joyCallback (frame 0 [0.5, - 0.5, 1] [1, 0, 0]) gamepad_impl =
     Inr (gamepad_impl\<lparr>cmd_vel_msg :=
            zero_Twist\<lparr>linear_x := 0.25, linear_y := - 0.25, angular_z := 0.5\<rparr>\<rparr>,
          [Published (zero_Twist\<lparr>linear_x := 0.25, linear_y := - 0.25, angular_z := 0.5\<rparr>)])"
proof (intro conjI impI ballI)
  assume b: "button joy_msg (enable_mov s) = Inr True \<and>
    button joy_msg (increment_vel s) = Inr False \<and>
    button joy_msg (decrement_vel s) = Inr False"
  obtain vx where vx: "getVal joy_msg (axis_position_map s) ''x'' = Inr vx"
    using getVal_total by blast
  obtain vy where vy: "getVal joy_msg (axis_position_map s) ''y'' = Inr vy"
    using getVal_total by blast
  obtain vz where vz: "getVal joy_msg (axis_orientation_map s) ''z'' = Inr vz"
    using getVal_total by blast
  let ?t = "(cmd_vel_msg s)\<lparr>linear_x := mov_vel s * vx, linear_y := mov_vel s * vy,
      angular_z := mov_vel s * vz\<rparr>"
  from b have "joyCallback joy_msg s = Inr (s\<lparr>cmd_vel_msg := ?t\<rparr>, [Published ?t])"
    using vx vy vz by (simp add: joyCallback_motion)
  with vx vy vz show "\<exists>vx vy vz t.
         getVal joy_msg (axis_position_map s) ''x'' = Inr vx \<and>
         getVal joy_msg (axis_position_map s) ''y'' = Inr vy \<and>
         getVal joy_msg (axis_orientation_map s) ''z'' = Inr vz \<and>
         joyCallback joy_msg s = Inr (s\<lparr>cmd_vel_msg := t\<rparr>, [Published t]) \<and>
         linear_x t = mov_vel s * vx \<and> linear_y t = mov_vel s * vy \<and>
         angular_z t = mov_vel s * vz \<and>
         angular_x t = angular_x (cmd_vel_msg s) \<and> angular_y t = angular_y (cmd_vel_msg s)"
    by (intro exI [of _ vx] exI [of _ vy] exI [of _ vz] exI [of _ ?t]) simp
next
  fix t
  assume a: "constructed p s0 \<and> run s0 frames = Inr (s1, evs)" and t: "t \<in> set (published evs)"
  from a have r: "run s0 frames = Inr (s1, evs)" by simp
  from r t have "angular_x t = angular_x (cmd_vel_msg s0) \<and> angular_y t = angular_y (cmd_vel_msg s0)"
    by (rule run_published_angular)
  moreover from a have "cmd_vel_msg s0 = zero_Twist" by (simp add: constructed_def)
  ultimately show "angular_x t = 0" and "angular_y t = 0" by (simp_all add: zero_Twist_def)
next
  show "joyCallback (frame 0 [0.5, - 0.5, 1] [1, 0, 0]) gamepad_impl =
     Inr (gamepad_impl\<lparr>cmd_vel_msg :=
            zero_Twist\<lparr>linear_x := 0.25, linear_y := - 0.25, angular_z := 0.5\<rparr>\<rparr>,
          [Published (zero_Twist\<lparr>linear_x := 0.25, linear_y := - 0.25, angular_z := 0.5\<rparr>)])"
    by (rule scenario_A)
qed


theorem motion_command_witness:
  "button (frame 0 [0.5, - 0.5, 1] [1, 0, 0]) (enable_mov gamepad_impl) = Inr True \<and>
   button (frame 0 [0.5, - 0.5, 1] [1, 0, 0]) (increment_vel gamepad_impl) = Inr False \<and>
   button (frame 0 [0.5, - 0.5, 1] [1, 0, 0]) (decrement_vel gamepad_impl) = Inr False \<and>
   constructed \<lparr>param_enable_mov = None, param_increment_velocity = Some 1,
      param_decrement_velocity = Some 2, param_axis_position_map = Some [''x'' \<mapsto> 0, ''y'' \<mapsto> 1],
      param_axis_orientation_map = Some [''z'' \<mapsto> 2], param_max_displacement_in_a_second = Some 2\<rparr>
     gamepad_impl \<and>
   run gamepad_impl [frame 0 [0.5, - 0.5, 1] [1, 0, 0]] =
     Inr (gamepad_impl\<lparr>cmd_vel_msg :=
            zero_Twist\<lparr>linear_x := 0.25, linear_y := - 0.25, angular_z := 0.5\<rparr>\<rparr>,
          [Published (zero_Twist\<lparr>linear_x := 0.25, linear_y := - 0.25, angular_z := 0.5\<rparr>)]) \<and>
   angular_x (zero_Twist\<lparr>linear_x := 0.25, linear_y := - 0.25, angular_z := 0.5\<rparr>) = 0 \<and>
   angular_y (zero_Twist\<lparr>linear_x := 0.25, linear_y := - 0.25, angular_z := 0.5\<rparr>) = 0 \<and>
   (\<exists>vx vy vz t.
      getVal (frame 0 [0.5, - 0.5, 1] [1, 0, 0]) (axis_position_map gamepad_impl) ''x'' = Inr vx \<and>
      getVal (frame 0 [0.5, - 0.5, 1] [1, 0, 0]) (axis_position_map gamepad_impl) ''y'' = Inr vy \<and>
      getVal (frame 0 [0.5, - 0.5, 1] [1, 0, 0]) (axis_orientation_map gamepad_impl) ''z'' = Inr vz \<and>
      joyCallback (frame 0 [0.5, - 0.5, 1] [1, 0, 0]) gamepad_impl =
        Inr (gamepad_impl\<lparr>cmd_vel_msg := t\<rparr>, [Published t]) \<and>
      linear_x t = mov_vel gamepad_impl * vx \<and> linear_y t = mov_vel gamepad_impl * vy \<and>
      angular_z t = mov_vel gamepad_impl * vz \<and>
      angular_x t = angular_x (cmd_vel_msg gamepad_impl) \<and>
      angular_y t = angular_y (cmd_vel_msg gamepad_impl))"
proof -
  let ?f = "frame 0 [0.5, - 0.5, 1] [1, 0, 0]"
  let ?p = "\<lparr>param_enable_mov = None, param_increment_velocity = Some 1,
      param_decrement_velocity = Some 2, param_axis_position_map = Some [''x'' \<mapsto> 0, ''y'' \<mapsto> 1],
      param_axis_orientation_map = Some [''z'' \<mapsto> 2], param_max_displacement_in_a_second = Some 2\<rparr>"
  let ?t = "zero_Twist\<lparr>linear_x := 0.25, linear_y := - 0.25, angular_z := 0.5\<rparr>"
  have b: "button ?f (enable_mov gamepad_impl) = Inr True \<and>
    button ?f (increment_vel gamepad_impl) = Inr False \<and>
    button ?f (decrement_vel gamepad_impl) = Inr False"
    by (simp add: button_frame gamepad_impl_def to_size_t_def)
  have c: "constructed ?p gamepad_impl" by (rule gamepad_impl_constructed)
  note inst = motion_command [of ?f gamepad_impl ?p gamepad_impl "[?f]"
      "gamepad_impl\<lparr>cmd_vel_msg := ?t\<rparr>" "[Published ?t]"]
  from inst have call: "joyCallback ?f gamepad_impl =
      Inr (gamepad_impl\<lparr>cmd_vel_msg := ?t\<rparr>, [Published ?t])"
    by (elim conjE)
  then have r: "run gamepad_impl [?f] = Inr (gamepad_impl\<lparr>cmd_vel_msg := ?t\<rparr>, [Published ?t])"
    by simp
  from inst c r have "\<forall>t \<in> set (published [Published ?t]). angular_x t = 0 \<and> angular_y t = 0"
    by blast
  then have z: "angular_x ?t = 0 \<and> angular_y ?t = 0" by simp
  from inst b have "\<exists>vx vy vz t.
      getVal ?f (axis_position_map gamepad_impl) ''x'' = Inr vx \<and>
      getVal ?f (axis_position_map gamepad_impl) ''y'' = Inr vy \<and>
      getVal ?f (axis_orientation_map gamepad_impl) ''z'' = Inr vz \<and>
      joyCallback ?f gamepad_impl = Inr (gamepad_impl\<lparr>cmd_vel_msg := t\<rparr>, [Published t]) \<and>
      linear_x t = mov_vel gamepad_impl * vx \<and> linear_y t = mov_vel gamepad_impl * vy \<and>
      angular_z t = mov_vel gamepad_impl * vz \<and>
      angular_x t = angular_x (cmd_vel_msg gamepad_impl) \<and>
      angular_y t = angular_y (cmd_vel_msg gamepad_impl)"
    by blast
  with b c r z show ?thesis by blast
qed

section \<open>Scaling frames\<close>

text \<open>
  Claim C8. In a frame with the enable button and the increment button pressed, the new
  scale is \<open>min (scale * 1.2) max_vel\<close>, whatever the decrement button reads: the
  decrement branch is the \<open>else\<close> of the increment test, so it is not taken when both
  are pressed.
\<close>

theorem increment_wins:
  assumes "button joy_msg (enable_mov s) = Inr True"
    and "button joy_msg (increment_vel s) = Inr True"
  shows "joyCallback joy_msg s =
           Inr (s\<lparr>mov_vel := min (mov_vel s * 1.2) (max_vel s)\<rparr>,
                [Slept (reaction_t s), Published (cmd_vel_msg s)]) \<and>
         ModifyVelocity s joy_msg (mov_vel s) (max_vel s) =
           Inr (min (mov_vel s * 1.2) (max_vel s), [Slept (reaction_t s)])"
  using assms by (simp add: joyCallback_increment ModifyVelocity_increment)

theorem increment_wins_witness:
  "button (frame 0 [] [1, 1, 1]) (enable_mov gamepad_impl) = Inr True \<and>
   button (frame 0 [] [1, 1, 1]) (increment_vel gamepad_impl) = Inr True \<and>
   button (frame 0 [] [1, 1, 1]) (decrement_vel gamepad_impl) = Inr True \<and>
   joyCallback (frame 0 [] [1, 1, 1]) gamepad_impl =
     Inr (gamepad_impl\<lparr>mov_vel := 0.6\<rparr>, [Slept 0.5, Published zero_Twist]) \<and>
   max (mov_vel gamepad_impl / 1.2) (min_vel gamepad_impl) \<noteq> 0.6"
proof -
  have e: "button (frame 0 [] [1, 1, 1]) (enable_mov gamepad_impl) = Inr True"
    and i: "button (frame 0 [] [1, 1, 1]) (increment_vel gamepad_impl) = Inr True"
    and d: "button (frame 0 [] [1, 1, 1]) (decrement_vel gamepad_impl) = Inr True"
    by (simp_all add: button_frame gamepad_impl_def to_size_t_def)
  have v: "min (mov_vel gamepad_impl * 1.2) (max_vel gamepad_impl) = 0.6"
    "reaction_t gamepad_impl = 0.5" "cmd_vel_msg gamepad_impl = zero_Twist"
    "max (mov_vel gamepad_impl / 1.2) (min_vel gamepad_impl) \<noteq> 0.6"
    by (simp_all add: gamepad_impl_def)
  from increment_wins [OF e i] e i d v show ?thesis by simp
qed

text \<open>
  Claim C6. In a frame with the enable button pressed and a scale button pressed, the
  stored command is left as it is and published again: the frame publishes the command
  the previous callback published, and only the scale changes in the state.
\<close>

theorem scaling_frame_repeats_command:
  "button joy_msg (enable_mov s) = Inr True \<and> scaling_requested s joy_msg = Inr True \<longrightarrow>
     (\<exists>scale. joyCallback joy_msg s =
        Inr (s\<lparr>mov_vel := scale\<rparr>, [Slept (reaction_t s), Published (cmd_vel_msg s)])) \<and>
     (joyCallback previous s0 = Inr (s, evs0) \<longrightarrow>
        (\<exists>s' evs. joyCallback joy_msg s = Inr (s', evs) \<and> published evs = published evs0 \<and>
           cmd_vel_msg s' = cmd_vel_msg s))"
proof (intro impI conjI)
  assume a: "button joy_msg (enable_mov s) = Inr True \<and> scaling_requested s joy_msg = Inr True"
  then obtain scale where call: "joyCallback joy_msg s =
      Inr (s\<lparr>mov_vel := scale\<rparr>, [Slept (reaction_t s), Published (cmd_vel_msg s)])"
    using joyCallback_scaling by blast
  then show "\<exists>scale. joyCallback joy_msg s =
      Inr (s\<lparr>mov_vel := scale\<rparr>, [Slept (reaction_t s), Published (cmd_vel_msg s)])" ..
  assume "joyCallback previous s0 = Inr (s, evs0)"
  then have "published evs0 = [cmd_vel_msg s]" by (rule joyCallback_published)
  with call show "\<exists>s' evs. joyCallback joy_msg s = Inr (s', evs) \<and>
      published evs = published evs0 \<and> cmd_vel_msg s' = cmd_vel_msg s"
    by simp
qed

theorem scaling_frame_repeats_command_witness:
  "joyCallback (frame 0 [0.5, - 0.5, 1] [1, 0, 0]) gamepad_impl =
     Inr (gamepad_impl\<lparr>cmd_vel_msg :=
            zero_Twist\<lparr>linear_x := 0.25, linear_y := - 0.25, angular_z := 0.5\<rparr>\<rparr>,
          [Published (zero_Twist\<lparr>linear_x := 0.25, linear_y := - 0.25, angular_z := 0.5\<rparr>)]) \<and>
   button (frame 1 [1, 1, 1] [1, 0, 1])
     (enable_mov (gamepad_impl\<lparr>cmd_vel_msg :=
        zero_Twist\<lparr>linear_x := 0.25, linear_y := - 0.25, angular_z := 0.5\<rparr>\<rparr>)) = Inr True \<and>
   scaling_requested (gamepad_impl\<lparr>cmd_vel_msg :=
        zero_Twist\<lparr>linear_x := 0.25, linear_y := - 0.25, angular_z := 0.5\<rparr>\<rparr>)
     (frame 1 [1, 1, 1] [1, 0, 1]) = Inr True \<and>
   (\<exists>s' evs. joyCallback (frame 1 [1, 1, 1] [1, 0, 1])
        (gamepad_impl\<lparr>cmd_vel_msg :=
           zero_Twist\<lparr>linear_x := 0.25, linear_y := - 0.25, angular_z := 0.5\<rparr>\<rparr>) = Inr (s', evs) \<and>
      published evs = [zero_Twist\<lparr>linear_x := 0.25, linear_y := - 0.25, angular_z := 0.5\<rparr>])"
proof -
  let ?t = "zero_Twist\<lparr>linear_x := 0.25, linear_y := - 0.25, angular_z := 0.5\<rparr>"
  let ?s = "gamepad_impl\<lparr>cmd_vel_msg := ?t\<rparr>"
  let ?f = "frame 1 [1, 1, 1] [1, 0, 1]"
  have prev: "joyCallback (frame 0 [0.5, - 0.5, 1] [1, 0, 0]) gamepad_impl = Inr (?s, [Published ?t])"
    by (rule scenario_A)
  have e: "button ?f (enable_mov ?s) = Inr True"
    by (simp add: button_frame gamepad_impl_def to_size_t_def)
  have r: "scaling_requested ?s ?f = Inr True"
    by (simp add: scaling_requested_def button_frame gamepad_impl_def to_size_t_def)
  from scaling_frame_repeats_command [of ?f ?s "frame 0 [0.5, - 0.5, 1] [1, 0, 0]" gamepad_impl
      "[Published ?t]"] e r prev
  have "\<exists>s' evs. joyCallback ?f ?s = Inr (s', evs) \<and> published evs = published [Published ?t] \<and>
      cmd_vel_msg s' = cmd_vel_msg ?s"
    by blast
  then have "\<exists>s' evs. joyCallback ?f ?s = Inr (s', evs) \<and> published evs = [?t]"
    by auto
  with prev e r show ?thesis by blast
qed

section \<open>Bounds of the scale\<close>

lemma ModifyVelocity_in_bounds:
  assumes "ModifyVelocity s joy_msg scale max_v = Inr (scale', evs)"
    and "0 \<le> min_vel s" and "min_vel s \<le> scale" and "scale \<le> max_v"
  shows "min_vel s \<le> scale' \<and> scale' \<le> max_v"
proof -
  have up: "scale \<le> scale * 1.2" using assms(2,3) by simp
  have down: "scale / 1.2 \<le> scale" using assms(2,3) by simp
  from assms(1) consider
    "scale' = min (scale * 1.2) max_v" | "scale' = max (scale / 1.2) (min_vel s)" | "scale' = scale"
    by (auto simp: ModifyVelocity_def split: sum.splits if_splits)
  then show ?thesis
  proof cases
    case 1
    with up assms(3,4) show ?thesis by simp
  next
    case 2
    with down assms(3,4) show ?thesis by simp
  next
    case 3
    with assms(3,4) show ?thesis by simp
  qed
qed

lemma joyCallback_scale_in_bounds:
  assumes "joyCallback joy_msg s = Inr (s', evs)" and "0 \<le> min_vel s" and "scale_in_bounds s"
  shows "scale_in_bounds s'"
  using assms(1)
proof (cases rule: joyCallback_cases)
  case stop
  with assms(3) show ?thesis by (simp add: scale_in_bounds_def command_stop_def)
next
  case (scaling scale)
  from assms(3) have "min_vel s \<le> mov_vel s" and "mov_vel s \<le> max_vel s"
    by (simp_all add: scale_in_bounds_def)
  with scaling(1) assms(2) have "min_vel s \<le> scale \<and> scale \<le> max_vel s"
    by (rule ModifyVelocity_in_bounds)
  with scaling(2) show ?thesis by (simp add: scale_in_bounds_def)
next
  case motion
  from motion(1) obtain vx vy vz where
    "s' = s\<lparr>cmd_vel_msg := (cmd_vel_msg s)
             \<lparr>linear_x := mov_vel s * vx, linear_y := mov_vel s * vy,
              angular_z := mov_vel s * vz\<rparr>\<rparr>"
    by (rule command_motion_cases)
  with assms(3) show ?thesis by (simp add: scale_in_bounds_def)
qed

lemma run_scale_in_bounds:
  "run s frames = Inr (s', evs) \<Longrightarrow> 0 \<le> min_vel s \<Longrightarrow> scale_in_bounds s \<Longrightarrow>
   scale_in_bounds s'"
proof (induction frames arbitrary: s s' evs)
  case Nil
  then show ?case by simp
next
  case (Cons joy_msg rest)
  from Cons.prems(1) obtain s1 evs1 evs2 where
    step: "joyCallback joy_msg s = Inr (s1, evs1)" and tail: "run s1 rest = Inr (s', evs2)"
    by (rule run_Cons_cases)
  from step Cons.prems(2,3) have b: "scale_in_bounds s1" by (rule joyCallback_scale_in_bounds)
  from step have "same_configuration s s1" by (rule joyCallback_same_configuration)
  with Cons.prems(2) have "0 \<le> min_vel s1" by (simp add: same_configuration_def)
  with tail show ?case using b by (rule Cons.IH)
qed

lemma button_in_range:
  "to_size_t i < length (buttons joy_msg) \<Longrightarrow> \<exists>b. button joy_msg i = Inr b"
  by (simp add: button_def vec_at_def)

lemma joyCallback_total:
  assumes "buttons_in_range s joy_msg"
  shows "\<exists>s' evs. joyCallback joy_msg s = Inr (s', evs)"
proof -
  from assms obtain en where en: "button joy_msg (enable_mov s) = Inr en"
    unfolding buttons_in_range_def using button_in_range [of "enable_mov s" joy_msg] by blast
  from assms obtain inc where inc: "button joy_msg (increment_vel s) = Inr inc"
    unfolding buttons_in_range_def using button_in_range [of "increment_vel s" joy_msg] by blast
  from assms obtain dec where dec: "button joy_msg (decrement_vel s) = Inr dec"
    unfolding buttons_in_range_def using button_in_range [of "decrement_vel s" joy_msg] by blast
  obtain vx where vx: "getVal joy_msg (axis_position_map s) ''x'' = Inr vx"
    using getVal_total by blast
  obtain vy where vy: "getVal joy_msg (axis_position_map s) ''y'' = Inr vy"
    using getVal_total by blast
  obtain vz where vz: "getVal joy_msg (axis_orientation_map s) ''z'' = Inr vz"
    using getVal_total by blast
  show ?thesis
  proof (cases en)
    case False
    with en show ?thesis by (simp add: joyCallback_gate_closed)
  next
    case True
    note enabled = this
    show ?thesis
    proof (cases inc)
      case True
      with en inc enabled show ?thesis by (simp add: joyCallback_increment)
    next
      case False
      note no_inc = this
      show ?thesis
      proof (cases dec)
        case True
        with en inc dec enabled no_inc show ?thesis by (simp add: joyCallback_decrement)
      next
        case False
        with en inc dec enabled no_inc vx vy vz show ?thesis
          by (simp add: joyCallback_motion)
      qed
    qed
  qed
qed

lemma run_total:
  "\<forall>joy_msg \<in> set frames. buttons_in_range s joy_msg \<Longrightarrow> \<exists>s' evs. run s frames = Inr (s', evs)"
proof (induction frames arbitrary: s)
  case Nil
  then show ?case by simp
next
  case (Cons joy_msg rest)
  then have "buttons_in_range s joy_msg" by simp
  then obtain s1 evs1 where step: "joyCallback joy_msg s = Inr (s1, evs1)"
    using joyCallback_total by blast
  then have "same_configuration s s1" by (rule joyCallback_same_configuration)
  with Cons.prems have "\<forall>f \<in> set rest. buttons_in_range s1 f"
    by (simp add: buttons_in_range_def same_configuration_def)
  then obtain s2 evs2 where "run s1 rest = Inr (s2, evs2)"
    using Cons.IH by blast
  with step show ?case by simp
qed

text \<open>
  Claim C3. Started with \<open>min_vel \<le> mov_vel \<le> max_vel\<close>, the scale is within the same
  bounds after the callbacks of any sequence of frames, hence after every adjustment of
  the sequence; the bounds themselves never change. The run returns whenever the
  button indices are indices of every frame. Each single call of \<open>ModifyVelocity\<close>
  yields a scale within the bounds. The lower bound is the constant \<open>0.1\<close> of the member
  initialiser; all that is used of it is that it is not negative.
\<close>

theorem scale_stays_in_bounds:
  assumes "0 \<le> min_vel s" and "scale_in_bounds s"
  shows "(run s frames = Inr (s', evs) \<longrightarrow>
            min_vel s \<le> mov_vel s' \<and> mov_vel s' \<le> max_vel s \<and>
            min_vel s' = min_vel s \<and> max_vel s' = max_vel s) \<and>
         ((\<forall>joy_msg \<in> set frames. buttons_in_range s joy_msg) \<longrightarrow>
            (\<exists>s'' evs''. run s frames = Inr (s'', evs'') \<and> scale_in_bounds s'')) \<and>
         (ModifyVelocity s joy_msg (mov_vel s) (max_vel s) = Inr (scale, evs') \<longrightarrow>
            min_vel s \<le> scale \<and> scale \<le> max_vel s)"
proof (intro conjI impI)
  assume r: "run s frames = Inr (s', evs)"
  then have "scale_in_bounds s'" using assms by (rule run_scale_in_bounds)
  moreover from r have "same_configuration s s'" by (rule run_same_configuration)
  ultimately show "min_vel s \<le> mov_vel s'" and "mov_vel s' \<le> max_vel s"
    and "min_vel s' = min_vel s" and "max_vel s' = max_vel s"
    by (simp_all add: scale_in_bounds_def same_configuration_def)
next
  assume "\<forall>joy_msg \<in> set frames. buttons_in_range s joy_msg"
  then obtain s'' evs'' where r: "run s frames = Inr (s'', evs'')"
    using run_total by blast
  then have "scale_in_bounds s''" using assms by (rule run_scale_in_bounds)
  with r show "\<exists>s'' evs''. run s frames = Inr (s'', evs'') \<and> scale_in_bounds s''" by blast
next
  assume mv: "ModifyVelocity s joy_msg (mov_vel s) (max_vel s) = Inr (scale, evs')"
  from assms(2) have "min_vel s \<le> mov_vel s" and "mov_vel s \<le> max_vel s"
    by (simp_all add: scale_in_bounds_def)
  with mv assms(1) have "min_vel s \<le> scale \<and> scale \<le> max_vel s"
    by (rule ModifyVelocity_in_bounds)
  then show "min_vel s \<le> scale" and "scale \<le> max_vel s" by simp_all
qed


lemma run_gamepad_inc_inc_dec:
  "run gamepad_impl [frame 0 [] [1, 1, 0], frame 1 [] [1, 1, 0], frame 2 [] [1, 0, 1]] =
     Inr (gamepad_impl\<lparr>mov_vel := 0.6\<rparr>,
          [Slept 0.5, Published zero_Twist, Slept 0.5, Published zero_Twist,
           Slept 0.5, Published zero_Twist])"
  by (simp add: joyCallback_def scaling_requested_def ModifyVelocity_def publish_def
      button_frame gamepad_impl_def to_size_t_def)

theorem scale_stays_in_bounds_witness:
  "0 \<le> min_vel gamepad_impl \<and> scale_in_bounds gamepad_impl \<and>
   buttons_in_range gamepad_impl (frame 0 [] [1, 1, 0]) \<and>
   buttons_in_range gamepad_impl (frame 1 [] [1, 1, 0]) \<and>
   buttons_in_range gamepad_impl (frame 2 [] [1, 0, 1]) \<and>
   run gamepad_impl [frame 0 [] [1, 1, 0], frame 1 [] [1, 1, 0], frame 2 [] [1, 0, 1]] =
     Inr (gamepad_impl\<lparr>mov_vel := 0.6\<rparr>,
          [Slept 0.5, Published zero_Twist, Slept 0.5, Published zero_Twist,
           Slept 0.5, Published zero_Twist]) \<and>
   min_vel gamepad_impl \<le> mov_vel (gamepad_impl\<lparr>mov_vel := 0.6\<rparr>) \<and>
   mov_vel (gamepad_impl\<lparr>mov_vel := 0.6\<rparr>) \<le> max_vel gamepad_impl \<and>
   ModifyVelocity gamepad_impl (frame 0 [] [1, 1, 0]) (mov_vel gamepad_impl) (max_vel gamepad_impl) =
     Inr (0.6, [Slept 0.5])"
proof -
  let ?frames = "[frame 0 [] [1, 1, 0], frame 1 [] [1, 1, 0], frame 2 [] [1, 0, 1]]"
  let ?s' = "gamepad_impl\<lparr>mov_vel := 0.6\<rparr>"
  let ?evs = "[Slept 0.5, Published zero_Twist, Slept 0.5, Published zero_Twist,
           Slept 0.5, Published zero_Twist]"
  have h1: "0 \<le> min_vel gamepad_impl" by (simp add: gamepad_impl_def)
  have h2: "scale_in_bounds gamepad_impl" by (simp add: scale_in_bounds_def gamepad_impl_def)
  have h3: "buttons_in_range gamepad_impl (frame 0 [] [1, 1, 0])"
    "buttons_in_range gamepad_impl (frame 1 [] [1, 1, 0])"
    "buttons_in_range gamepad_impl (frame 2 [] [1, 0, 1])"
    by (simp_all add: buttons_in_range_def gamepad_impl_def frame_def to_size_t_def)
  have r: "run gamepad_impl ?frames = Inr (?s', ?evs)" by (rule run_gamepad_inc_inc_dec)
  have m: "ModifyVelocity gamepad_impl (frame 0 [] [1, 1, 0]) (mov_vel gamepad_impl)
      (max_vel gamepad_impl) = Inr (0.6, [Slept 0.5])"
    by (simp add: ModifyVelocity_def button_frame gamepad_impl_def to_size_t_def)
  from scale_stays_in_bounds [OF h1 h2, of ?frames ?s' ?evs "frame 0 [] [1, 1, 0]" "0.6" "[Slept 0.5]"] r
  have "min_vel gamepad_impl \<le> mov_vel ?s' \<and> mov_vel ?s' \<le> max_vel gamepad_impl"
    by blast
  with h1 h2 h3 r m show ?thesis by blast
qed

section \<open>Repeated decrements\<close>

lemma divide_ge_one_le:
  fixes m c :: real
  assumes "0 \<le> m" and "1 \<le> c"
  shows "m / c \<le> m"
proof -
  from assms have "m / c \<le> m / 1" by (intro divide_left_mono) simp_all
  then show ?thesis by simp
qed

lemma max_divide_pos:
  fixes a b c :: real
  assumes "0 < c"
  shows "max a b / c = max (a / c) (b / c)"
  using assms by (simp add: max_def divide_le_cancel)

lemma decrement_step_closed_form:
  fixes m mn :: real
  assumes "0 \<le> mn"
  shows "max (max (m / 1.2) mn / 1.2 ^ k) mn = max (m / 1.2 ^ Suc k) mn"
proof -
  have one: "(1::real) \<le> 1.2 ^ k" by (rule one_le_power) simp
  then have pos: "(0::real) < 1.2 ^ k" by simp
  from assms one have le: "mn / 1.2 ^ k \<le> mn" by (rule divide_ge_one_le)
  have "max (m / 1.2) mn / 1.2 ^ k = max (m / 1.2 / 1.2 ^ k) (mn / 1.2 ^ k)"
    using pos by (rule max_divide_pos)
  also have "m / 1.2 / 1.2 ^ k = m / 1.2 ^ Suc k" by simp
  finally have "max (max (m / 1.2) mn / 1.2 ^ k) mn =
      max (max (m / 1.2 ^ Suc k) (mn / 1.2 ^ k)) mn"
    by (rule arg_cong)
  also from le have "\<dots> = max (m / 1.2 ^ Suc k) mn" by (simp add: max_def)
  finally show ?thesis .
qed

lemma decrements_reach_minimum:
  fixes m mn :: real
  assumes "0 < mn"
  shows "\<exists>N. \<forall>n\<ge>N. max (m / 1.2 ^ n) mn = mn"
proof -
  obtain N where N: "m / mn < 1.2 ^ N"
    using real_arch_pow [of "1.2" "m / mn"] by auto
  have "\<forall>n\<ge>N. max (m / 1.2 ^ n) mn = mn"
  proof (intro allI impI)
    fix n assume "N \<le> n"
    then have "(1.2::real) ^ N \<le> 1.2 ^ n" by (intro power_increasing) simp_all
    with N have "m / mn < 1.2 ^ n" by (rule less_le_trans)
    with assms have "m < 1.2 ^ n * mn" by (simp add: pos_divide_less_eq)
    moreover have "(0::real) < 1.2 ^ n" by simp
    ultimately have "m / 1.2 ^ n < mn" by (simp add: pos_divide_less_eq mult.commute)
    then show "max (m / 1.2 ^ n) mn = mn" by (simp add: max_def)
  qed
  then show ?thesis ..
qed

lemma run_decrements:
  assumes "0 \<le> min_vel s" and "min_vel s \<le> mov_vel s"
    and "\<forall>f \<in> set frames. decrement_frame s f"
  shows "\<exists>s' evs. run s frames = Inr (s', evs) \<and>
           mov_vel s' = max (mov_vel s / 1.2 ^ length frames) (min_vel s)"
  using assms
proof (induction frames arbitrary: s)
  case Nil
  then show ?case by (simp add: max_def)
next
  case (Cons f fs)
  let ?s1 = "s\<lparr>mov_vel := max (mov_vel s / 1.2) (min_vel s)\<rparr>"
  from Cons.prems(3) have "decrement_frame s f" by simp
  then have step: "joyCallback f s =
      Inr (?s1, [Slept (reaction_t s), Published (cmd_vel_msg s)])"
    unfolding decrement_frame_def by (intro joyCallback_decrement) simp_all
  have e1: "mov_vel ?s1 = max (mov_vel s / 1.2) (min_vel s)" and e2: "min_vel ?s1 = min_vel s"
    by simp_all
  have p1: "0 \<le> min_vel ?s1" using Cons.prems(1) by simp
  have p2: "min_vel ?s1 \<le> mov_vel ?s1" by simp
  have p3: "\<forall>g \<in> set fs. decrement_frame ?s1 g"
    using Cons.prems(3) by (simp add: decrement_frame_def)
  from Cons.IH [OF p1 p2 p3] obtain s' evs where
    tail: "run ?s1 fs = Inr (s', evs)" and
    scale: "mov_vel s' = max (mov_vel ?s1 / 1.2 ^ length fs) (min_vel ?s1)"
    by blast
  from scale have "mov_vel s' = max (max (mov_vel s / 1.2) (min_vel s) / 1.2 ^ length fs) (min_vel s)"
    by (simp only: e1 e2)
  also from Cons.prems(1) have "\<dots> = max (mov_vel s / 1.2 ^ Suc (length fs)) (min_vel s)"
    by (rule decrement_step_closed_form)
  finally have "mov_vel s' = max (mov_vel s / 1.2 ^ Suc (length fs)) (min_vel s)" .
  moreover have "length (f # fs) = Suc (length fs)" by simp
  ultimately have "mov_vel s' = max (mov_vel s / 1.2 ^ length (f # fs)) (min_vel s)"
    by (simp only:)
  moreover from step tail have "run s (f # fs) =
      Inr (s', [Slept (reaction_t s), Published (cmd_vel_msg s)] @ evs)"
    by simp
  ultimately show ?case by blast
qed

lemma scale_after_decrements:
  assumes "0 \<le> min_vel s" and "min_vel s \<le> mov_vel s"
    and "\<forall>f \<in> set frames. decrement_frame s f"
  shows "scale_after s frames = Some (max (mov_vel s / 1.2 ^ length frames) (min_vel s))"
proof -
  from run_decrements [OF assms] obtain s' evs where
    "run s frames = Inr (s', evs)"
    "mov_vel s' = max (mov_vel s / 1.2 ^ length frames) (min_vel s)"
    by blast
  then show ?thesis by (simp add: scale_after_def)
qed

text \<open>
  Scenario D: scale \<open>0.2\<close>, lower bound \<open>0.1\<close>, one to five decrement frames.
\<close>

lemma scenario_D:
  "scale_after (gamepad_impl\<lparr>mov_vel := 0.2\<rparr>) [frame 0 [] [1, 0, 1]] = Some (1 / 6)"
  "scale_after (gamepad_impl\<lparr>mov_vel := 0.2\<rparr>)
     [frame 0 [] [1, 0, 1], frame 0 [] [1, 0, 1]] = Some (5 / 36)"
  "scale_after (gamepad_impl\<lparr>mov_vel := 0.2\<rparr>)
     [frame 0 [] [1, 0, 1], frame 0 [] [1, 0, 1], frame 0 [] [1, 0, 1]] = Some (25 / 216)"
  "scale_after (gamepad_impl\<lparr>mov_vel := 0.2\<rparr>)
     [frame 0 [] [1, 0, 1], frame 0 [] [1, 0, 1], frame 0 [] [1, 0, 1], frame 0 [] [1, 0, 1]] =
   Some 0.1"
  "scale_after (gamepad_impl\<lparr>mov_vel := 0.2\<rparr>)
     [frame 0 [] [1, 0, 1], frame 0 [] [1, 0, 1], frame 0 [] [1, 0, 1], frame 0 [] [1, 0, 1],
      frame 0 [] [1, 0, 1]] = Some 0.1"
  by (simp_all add: scale_after_def joyCallback_def scaling_requested_def ModifyVelocity_def
      publish_def button_frame gamepad_impl_def to_size_t_def)

text \<open>
  Claim C9. From a scale at or above a positive lower bound (the code's is \<open>0.1\<close>), the
  callbacks of \<open>n\<close> decrement frames leave the scale at \<open>max (scale / 1.2 ^ n) min_vel\<close>:
  each further decrement gives a scale that is no larger and not below \<open>min_vel\<close>, after
  finitely many the scale is exactly \<open>min_vel\<close>, and a decrement at \<open>min_vel\<close> leaves it
  there. From \<open>0.2\<close> with bound \<open>0.1\<close> the scales are \<open>1/6\<close>, \<open>5/36\<close>, \<open>25/216\<close> (within
  \<open>0.0001\<close> of \<open>0.1667\<close>, \<open>0.1389\<close>, \<open>0.1157\<close>), then \<open>0.1\<close> and \<open>0.1\<close> again.
\<close>

theorem repeated_decrement_reaches_minimum:
  "(0 < min_vel s \<and> min_vel s \<le> mov_vel s \<longrightarrow>
      (\<forall>frames. (\<forall>f \<in> set frames. decrement_frame s f) \<longrightarrow>
         scale_after s frames = Some (max (mov_vel s / 1.2 ^ length frames) (min_vel s))) \<and>
      (\<forall>frames f. (\<forall>g \<in> set (frames @ [f]). decrement_frame s g) \<longrightarrow>
         (\<exists>a b. scale_after s frames = Some a \<and> scale_after s (frames @ [f]) = Some b \<and>
            min_vel s \<le> b \<and> b \<le> a)) \<and>
      (\<exists>N. \<forall>frames. N \<le> length frames \<and> (\<forall>f \<in> set frames. decrement_frame s f) \<longrightarrow>
         scale_after s frames = Some (min_vel s)) \<and>
      (\<forall>f. mov_vel s = min_vel s \<and> decrement_frame s f \<longrightarrow>
         scale_after s [f] = Some (min_vel s))) \<and>
   scale_after (gamepad_impl\<lparr>mov_vel := 0.2\<rparr>) [frame 0 [] [1, 0, 1]] = Some (1 / 6) \<and>
   scale_after (gamepad_impl\<lparr>mov_vel := 0.2\<rparr>)
     [frame 0 [] [1, 0, 1], frame 0 [] [1, 0, 1]] = Some (5 / 36) \<and>
   scale_after (gamepad_impl\<lparr>mov_vel := 0.2\<rparr>)
     [frame 0 [] [1, 0, 1], frame 0 [] [1, 0, 1], frame 0 [] [1, 0, 1]] = Some (25 / 216) \<and>
   scale_after (gamepad_impl\<lparr>mov_vel := 0.2\<rparr>)
     [frame 0 [] [1, 0, 1], frame 0 [] [1, 0, 1], frame 0 [] [1, 0, 1], frame 0 [] [1, 0, 1]] =
     Some 0.1 \<and>
   scale_after (gamepad_impl\<lparr>mov_vel := 0.2\<rparr>)
     [frame 0 [] [1, 0, 1], frame 0 [] [1, 0, 1], frame 0 [] [1, 0, 1], frame 0 [] [1, 0, 1],
      frame 0 [] [1, 0, 1]] = Some 0.1 \<and>
   \<bar>1 / 6 - 0.1667\<bar> < (0.0001 :: real) \<and> \<bar>5 / 36 - 0.1389\<bar> < (0.0001 :: real) \<and>
   \<bar>25 / 216 - 0.1157\<bar> < (0.0001 :: real)"
proof -
  have general: "(\<forall>frames. (\<forall>f \<in> set frames. decrement_frame s f) \<longrightarrow>
         scale_after s frames = Some (max (mov_vel s / 1.2 ^ length frames) (min_vel s))) \<and>
      (\<forall>frames f. (\<forall>g \<in> set (frames @ [f]). decrement_frame s g) \<longrightarrow>
         (\<exists>a b. scale_after s frames = Some a \<and> scale_after s (frames @ [f]) = Some b \<and>
            min_vel s \<le> b \<and> b \<le> a)) \<and>
      (\<exists>N. \<forall>frames. N \<le> length frames \<and> (\<forall>f \<in> set frames. decrement_frame s f) \<longrightarrow>
         scale_after s frames = Some (min_vel s)) \<and>
      (\<forall>f. mov_vel s = min_vel s \<and> decrement_frame s f \<longrightarrow>
         scale_after s [f] = Some (min_vel s))"
    if pos: "0 < min_vel s" and start: "min_vel s \<le> mov_vel s"
  proof -
    from pos have nonneg: "0 \<le> min_vel s" by simp
    have closed: "scale_after s frames = Some (max (mov_vel s / 1.2 ^ length frames) (min_vel s))"
      if "\<forall>f \<in> set frames. decrement_frame s f" for frames
      using nonneg start that by (rule scale_after_decrements)
    have step: "\<exists>a b. scale_after s frames = Some a \<and> scale_after s (frames @ [f]) = Some b \<and>
        min_vel s \<le> b \<and> b \<le> a"
      if all: "\<forall>g \<in> set (frames @ [f]). decrement_frame s g" for frames f
    proof -
      let ?a = "max (mov_vel s / 1.2 ^ length frames) (min_vel s)"
      let ?b = "max (mov_vel s / 1.2 ^ length (frames @ [f])) (min_vel s)"
      from all have "\<forall>g \<in> set frames. decrement_frame s g" by simp
      then have a: "scale_after s frames = Some ?a" by (rule closed)
      from all have b: "scale_after s (frames @ [f]) = Some ?b" by (rule closed)
      from nonneg start have "0 \<le> mov_vel s / 1.2 ^ length frames" by simp
      then have "mov_vel s / 1.2 ^ length frames / 1.2 \<le> mov_vel s / 1.2 ^ length frames"
        by (rule divide_ge_one_le) simp
      moreover have "mov_vel s / 1.2 ^ length (frames @ [f]) = mov_vel s / 1.2 ^ length frames / 1.2"
        by simp
      ultimately have "mov_vel s / 1.2 ^ length (frames @ [f]) \<le> mov_vel s / 1.2 ^ length frames"
        by (simp only:)
      then have "?b \<le> ?a" by (simp add: max_def)
      moreover have "min_vel s \<le> ?b" by simp
      ultimately show ?thesis using a b by blast
    qed
    from pos obtain N where N: "\<forall>n\<ge>N. max (mov_vel s / 1.2 ^ n) (min_vel s) = min_vel s"
      using decrements_reach_minimum by blast
    have reach: "\<forall>frames. N \<le> length frames \<and> (\<forall>f \<in> set frames. decrement_frame s f) \<longrightarrow>
        scale_after s frames = Some (min_vel s)"
    proof (intro allI impI)
      fix frames
      assume a: "N \<le> length frames \<and> (\<forall>f \<in> set frames. decrement_frame s f)"
      then have "scale_after s frames = Some (max (mov_vel s / 1.2 ^ length frames) (min_vel s))"
        by (simp add: closed)
      moreover from a N have "max (mov_vel s / 1.2 ^ length frames) (min_vel s) = min_vel s"
        by blast
      ultimately show "scale_after s frames = Some (min_vel s)" by (simp only:)
    qed
    have stay: "scale_after s [f] = Some (min_vel s)"
      if "mov_vel s = min_vel s \<and> decrement_frame s f" for f
    proof -
      from that have "scale_after s [f] = Some (max (mov_vel s / 1.2 ^ length [f]) (min_vel s))"
        by (simp add: closed)
      moreover from nonneg that have "mov_vel s / 1.2 ^ length [f] \<le> min_vel s" by simp
      ultimately show ?thesis by (simp add: max_def)
    qed
    from closed step reach stay show ?thesis by blast
  qed
  have approx: "\<bar>1 / 6 - 0.1667\<bar> < (0.0001 :: real)" "\<bar>5 / 36 - 0.1389\<bar> < (0.0001 :: real)"
    "\<bar>25 / 216 - 0.1157\<bar> < (0.0001 :: real)"
    by simp_all
  from general scenario_D approx show ?thesis by blast
qed

theorem repeated_decrement_reaches_minimum_witness:
  "0 < min_vel (gamepad_impl\<lparr>mov_vel := 0.2\<rparr>) \<and>
   min_vel (gamepad_impl\<lparr>mov_vel := 0.2\<rparr>) \<le> mov_vel (gamepad_impl\<lparr>mov_vel := 0.2\<rparr>) \<and>
   decrement_frame (gamepad_impl\<lparr>mov_vel := 0.2\<rparr>) (frame 0 [] [1, 0, 1]) \<and>
   scale_after (gamepad_impl\<lparr>mov_vel := 0.2\<rparr>)
     [frame 0 [] [1, 0, 1], frame 0 [] [1, 0, 1], frame 0 [] [1, 0, 1], frame 0 [] [1, 0, 1]] =
     Some (max (mov_vel (gamepad_impl\<lparr>mov_vel := 0.2\<rparr>) / 1.2 ^ 4)
             (min_vel (gamepad_impl\<lparr>mov_vel := 0.2\<rparr>))) \<and>
   (\<exists>a b. scale_after (gamepad_impl\<lparr>mov_vel := 0.2\<rparr>) [frame 0 [] [1, 0, 1]] = Some a \<and>
      scale_after (gamepad_impl\<lparr>mov_vel := 0.2\<rparr>)
        [frame 0 [] [1, 0, 1], frame 0 [] [1, 0, 1]] = Some b \<and>
      min_vel (gamepad_impl\<lparr>mov_vel := 0.2\<rparr>) \<le> b \<and> b \<le> a)"
proof -
  let ?s = "gamepad_impl\<lparr>mov_vel := 0.2\<rparr>"
  let ?f = "frame 0 [] [1, 0, 1]"
  have h1: "0 < min_vel ?s" by (simp add: gamepad_impl_def)
  have h2: "min_vel ?s \<le> mov_vel ?s" by (simp add: gamepad_impl_def)
  have d: "decrement_frame ?s ?f"
    by (simp add: decrement_frame_def button_frame gamepad_impl_def to_size_t_def)
  from repeated_decrement_reaches_minimum [of ?s] h1 h2
  have closed: "\<forall>frames. (\<forall>f \<in> set frames. decrement_frame ?s f) \<longrightarrow>
         scale_after ?s frames = Some (max (mov_vel ?s / 1.2 ^ length frames) (min_vel ?s))"
    and step: "\<forall>frames f. (\<forall>g \<in> set (frames @ [f]). decrement_frame ?s g) \<longrightarrow>
         (\<exists>a b. scale_after ?s frames = Some a \<and> scale_after ?s (frames @ [f]) = Some b \<and>
            min_vel ?s \<le> b \<and> b \<le> a)"
    by blast+
  from d have "\<forall>f \<in> set [?f, ?f, ?f, ?f]. decrement_frame ?s f" by simp
  with closed have "scale_after ?s [?f, ?f, ?f, ?f] =
      Some (max (mov_vel ?s / 1.2 ^ length [?f, ?f, ?f, ?f]) (min_vel ?s))"
    by blast
  moreover have "length [?f, ?f, ?f, ?f] = 4" by simp
  ultimately have four: "scale_after ?s [?f, ?f, ?f, ?f] =
      Some (max (mov_vel ?s / 1.2 ^ 4) (min_vel ?s))"
    by (simp only:)
  from d have "\<forall>g \<in> set ([?f] @ [?f]). decrement_frame ?s g" by simp
  with step have "\<exists>a b. scale_after ?s [?f] = Some a \<and> scale_after ?s ([?f] @ [?f]) = Some b \<and>
      min_vel ?s \<le> b \<and> b \<le> a"
    by blast
  moreover have "[?f] @ [?f] = [?f, ?f]" by simp
  ultimately have two: "\<exists>a b. scale_after ?s [?f] = Some a \<and> scale_after ?s [?f, ?f] = Some b \<and>
      min_vel ?s \<le> b \<and> b \<le> a"
    by (simp only:)
  from h1 h2 d four two show ?thesis by blast
qed

section \<open>The cooldown\<close>

lemma button_stamp_update [simp]: "button (joy_msg\<lparr>stamp := t\<rparr>) i = button joy_msg i"
  by (simp add: button_def)

lemma getVal_stamp_update [simp]:
  "getVal (joy_msg\<lparr>stamp := t\<rparr>) axis_map fieldname = getVal joy_msg axis_map fieldname"
  by (simp add: getVal_def cong: sum.case_cong if_cong)

lemma ModifyVelocity_stamp_update:
  "ModifyVelocity s (joy_msg\<lparr>stamp := t\<rparr>) scale max_v = ModifyVelocity s joy_msg scale max_v"
  by (simp add: ModifyVelocity_def cong: sum.case_cong if_cong)

lemma scaling_requested_stamp_update [simp]:
  "scaling_requested s (joy_msg\<lparr>stamp := t\<rparr>) = scaling_requested s joy_msg"
  by (simp add: scaling_requested_def cong: sum.case_cong if_cong)

lemma command_motion_stamp_update [simp]:
  "command_motion s (joy_msg\<lparr>stamp := t\<rparr>) = command_motion s joy_msg"
  by (simp add: command_motion_def cong: sum.case_cong)

lemma joyCallback_stamp_update:
  "joyCallback (joy_msg\<lparr>stamp := t\<rparr>) s = joyCallback joy_msg s"
  by (simp add: joyCallback_def ModifyVelocity_stamp_update
      cong: sum.case_cong bool.case_cong if_cong)

text \<open>
  The source keeps no time of the last adjustment and compares no time stamps. Scenario C
  with the second request made \<open>0.1\<close> s after the first, inside the cooldown of \<open>0.5\<close> s:
  from scale \<open>1\<close> with upper bound \<open>2\<close> the first frame gives \<open>1.2\<close>, and the second is
  applied as well and gives \<open>1.44\<close>; each callback sleeps for \<open>0.5\<close> s. So claim C5 as
  stated (the second request is dropped, the state is not changed, nothing blocks) does
  not hold of the code.
\<close>

theorem second_request_within_cooldown_applied:
  "stamp (frame 0.1 [] [1, 1, 0]) - stamp (frame 0 [] [1, 1, 0]) <
     reaction_t (gamepad_impl\<lparr>mov_vel := 1\<rparr>) \<and>
   joyCallback (frame 0 [] [1, 1, 0]) (gamepad_impl\<lparr>mov_vel := 1\<rparr>) =
     Inr (gamepad_impl\<lparr>mov_vel := 1.2\<rparr>, [Slept 0.5, Published zero_Twist]) \<and>
   joyCallback (frame 0.1 [] [1, 1, 0]) (gamepad_impl\<lparr>mov_vel := 1.2\<rparr>) =
     Inr (gamepad_impl\<lparr>mov_vel := 1.44\<rparr>, [Slept 0.5, Published zero_Twist]) \<and>
   mov_vel (gamepad_impl\<lparr>mov_vel := 1.44\<rparr>) \<noteq> mov_vel (gamepad_impl\<lparr>mov_vel := 1.2\<rparr>) \<and>
   blocked [Slept 0.5, Published zero_Twist] = 0.5"
proof -
  have "stamp (frame 0.1 [] [1, 1, 0]) - stamp (frame 0 [] [1, 1, 0]) <
      reaction_t (gamepad_impl\<lparr>mov_vel := 1\<rparr>)"
    by (simp add: frame_def gamepad_impl_def)
  moreover have "joyCallback (frame 0 [] [1, 1, 0]) (gamepad_impl\<lparr>mov_vel := 1\<rparr>) =
      Inr (gamepad_impl\<lparr>mov_vel := 1.2\<rparr>, [Slept 0.5, Published zero_Twist])"
    by (simp add: joyCallback_def scaling_requested_def ModifyVelocity_def publish_def
        button_frame gamepad_impl_def to_size_t_def)
  moreover have "joyCallback (frame 0.1 [] [1, 1, 0]) (gamepad_impl\<lparr>mov_vel := 1.2\<rparr>) =
      Inr (gamepad_impl\<lparr>mov_vel := 1.44\<rparr>, [Slept 0.5, Published zero_Twist])"
    by (simp add: joyCallback_def scaling_requested_def ModifyVelocity_def publish_def
        button_frame gamepad_impl_def to_size_t_def)
  moreover have "mov_vel (gamepad_impl\<lparr>mov_vel := 1.44\<rparr>) \<noteq>
      mov_vel (gamepad_impl\<lparr>mov_vel := 1.2\<rparr>)"
    by simp
  moreover have "blocked [Slept 0.5, Published zero_Twist] = 0.5" by simp
  ultimately show ?thesis by blast
qed

text \<open>
  Claim C5, amended. Every adjustment request that reaches \<open>ModifyVelocity\<close> is applied,
  whatever the time stamp of the frame: the scale becomes the candidate
  (\<open>min (scale * 1.2) max_vel\<close> for an increment, \<open>max (scale / 1.2) min_vel\<close> for a
  decrement), nothing else of the state changes and no request is dropped. The cooldown
  is enforced by blocking: the call sleeps for \<open>reaction_t\<close> before the callback publishes
  and returns.
\<close>

theorem adjustment_applied_then_blocks:
  "ModifyVelocity s (joy_msg\<lparr>stamp := t\<rparr>) scale max_v = ModifyVelocity s joy_msg scale max_v \<and>
   joyCallback (joy_msg\<lparr>stamp := t\<rparr>) s = joyCallback joy_msg s \<and>
   (button joy_msg (increment_vel s) = Inr True \<longrightarrow>
      ModifyVelocity s joy_msg scale max_v =
        Inr (min (scale * 1.2) max_v, [Slept (reaction_t s)])) \<and>
   (button joy_msg (increment_vel s) = Inr False \<and> button joy_msg (decrement_vel s) = Inr True \<longrightarrow>
      ModifyVelocity s joy_msg scale max_v =
        Inr (max (scale / 1.2) (min_vel s), [Slept (reaction_t s)])) \<and>
   (button joy_msg (enable_mov s) = Inr True \<and> scaling_requested s joy_msg = Inr True \<longrightarrow>
      (\<exists>scale'. ModifyVelocity s joy_msg (mov_vel s) (max_vel s) =
                   Inr (scale', [Slept (reaction_t s)]) \<and>
                 joyCallback joy_msg s =
                   Inr (s\<lparr>mov_vel := scale'\<rparr>,
                        [Slept (reaction_t s), Published (cmd_vel_msg s)]) \<and>
                 blocked [Slept (reaction_t s), Published (cmd_vel_msg s)] = reaction_t s))"
proof (intro conjI impI)
  show "ModifyVelocity s (joy_msg\<lparr>stamp := t\<rparr>) scale max_v = ModifyVelocity s joy_msg scale max_v"
    by (rule ModifyVelocity_stamp_update)
  show "joyCallback (joy_msg\<lparr>stamp := t\<rparr>) s = joyCallback joy_msg s"
    by (rule joyCallback_stamp_update)
next
  assume "button joy_msg (increment_vel s) = Inr True"
  then show "ModifyVelocity s joy_msg scale max_v =
      Inr (min (scale * 1.2) max_v, [Slept (reaction_t s)])"
    by (rule ModifyVelocity_increment)
next
  assume "button joy_msg (increment_vel s) = Inr False \<and> button joy_msg (decrement_vel s) = Inr True"
  then show "ModifyVelocity s joy_msg scale max_v =
      Inr (max (scale / 1.2) (min_vel s), [Slept (reaction_t s)])"
    by (simp add: ModifyVelocity_decrement)
next
  assume a: "button joy_msg (enable_mov s) = Inr True \<and> scaling_requested s joy_msg = Inr True"
  then consider
    (inc) "button joy_msg (increment_vel s) = Inr True"
    | (dec) "button joy_msg (increment_vel s) = Inr False"
      "button joy_msg (decrement_vel s) = Inr True"
    unfolding scaling_requested_cases by blast
  then show "\<exists>scale'. ModifyVelocity s joy_msg (mov_vel s) (max_vel s) =
                   Inr (scale', [Slept (reaction_t s)]) \<and>
                 joyCallback joy_msg s =
                   Inr (s\<lparr>mov_vel := scale'\<rparr>,
                        [Slept (reaction_t s), Published (cmd_vel_msg s)]) \<and>
                 blocked [Slept (reaction_t s), Published (cmd_vel_msg s)] = reaction_t s"
  proof cases
    case inc
    with a show ?thesis
      by (simp add: ModifyVelocity_increment joyCallback_increment)
  next
    case dec
    with a show ?thesis
      by (simp add: ModifyVelocity_decrement joyCallback_decrement)
  qed
qed

theorem adjustment_applied_then_blocks_witness:
  "button (frame 0.1 [] [1, 1, 0]) (increment_vel (gamepad_impl\<lparr>mov_vel := 1.2\<rparr>)) = Inr True \<and>
   button (frame 0.1 [] [1, 1, 0]) (enable_mov (gamepad_impl\<lparr>mov_vel := 1.2\<rparr>)) = Inr True \<and>
   scaling_requested (gamepad_impl\<lparr>mov_vel := 1.2\<rparr>) (frame 0.1 [] [1, 1, 0]) = Inr True \<and>
   button (frame 0.1 [] [1, 0, 1]) (increment_vel (gamepad_impl\<lparr>mov_vel := 1.2\<rparr>)) = Inr False \<and>
   button (frame 0.1 [] [1, 0, 1]) (decrement_vel (gamepad_impl\<lparr>mov_vel := 1.2\<rparr>)) = Inr True \<and>
   ModifyVelocity (gamepad_impl\<lparr>mov_vel := 1.2\<rparr>) (frame 0.1 [] [1, 1, 0]) 1.2 2 =
     Inr (1.44, [Slept 0.5]) \<and>
   ModifyVelocity (gamepad_impl\<lparr>mov_vel := 1.2\<rparr>) (frame 0.1 [] [1, 0, 1]) 1.2 2 =
     Inr (1, [Slept 0.5]) \<and>
   (\<exists>scale'. joyCallback (frame 0.1 [] [1, 1, 0]) (gamepad_impl\<lparr>mov_vel := 1.2\<rparr>) =
      Inr (gamepad_impl\<lparr>mov_vel := 1.2, mov_vel := scale'\<rparr>, [Slept 0.5, Published zero_Twist]))"
proof -
  let ?s = "gamepad_impl\<lparr>mov_vel := 1.2\<rparr>"
  let ?f = "frame 0.1 [] [1, 1, 0]"
  let ?g = "frame 0.1 [] [1, 0, 1]"
  have b: "button ?f (increment_vel ?s) = Inr True" "button ?f (enable_mov ?s) = Inr True"
    "button ?g (increment_vel ?s) = Inr False" "button ?g (decrement_vel ?s) = Inr True"
    by (simp_all add: button_frame gamepad_impl_def to_size_t_def)
  have r: "scaling_requested ?s ?f = Inr True"
    by (simp add: scaling_requested_def button_frame gamepad_impl_def to_size_t_def)
  have v: "reaction_t ?s = 0.5" "cmd_vel_msg ?s = zero_Twist" "min_vel ?s = 0.1"
    by (simp_all add: gamepad_impl_def)
  from adjustment_applied_then_blocks [where s = ?s and joy_msg = ?f and t = 0 and scale = "1.2" and max_v = 2] b
  have i: "ModifyVelocity ?s ?f 1.2 2 = Inr (min (1.2 * 1.2) 2, [Slept (reaction_t ?s)])"
    by blast
  from adjustment_applied_then_blocks [where s = ?s and joy_msg = ?g and t = 0 and scale = "1.2" and max_v = 2] b
  have d: "ModifyVelocity ?s ?g 1.2 2 = Inr (max (1.2 / 1.2) (min_vel ?s), [Slept (reaction_t ?s)])"
    by blast
  from adjustment_applied_then_blocks [where s = ?s and joy_msg = ?f and t = 0 and scale = "1.2" and max_v = 2] b r
  have c: "\<exists>scale'. joyCallback ?f ?s =
      Inr (?s\<lparr>mov_vel := scale'\<rparr>, [Slept (reaction_t ?s), Published (cmd_vel_msg ?s)])"
    by blast
  from i [unfolded v] have i': "ModifyVelocity ?s ?f 1.2 2 = Inr (1.44, [Slept 0.5])" by simp
  from d [unfolded v] have d': "ModifyVelocity ?s ?g 1.2 2 = Inr (1, [Slept 0.5])" by simp
  from c have c': "\<exists>scale'. joyCallback ?f ?s =
      Inr (?s\<lparr>mov_vel := scale'\<rparr>, [Slept 0.5, Published zero_Twist])"
    by (simp only: v)
  from b r i' d' c' show ?thesis by blast
qed

end
